theory Spec2Isabelle
  imports Main "HOL-Library.Word"
begin

unbundle bit_operations_syntax

section \<open>Machine types\<close>

text \<open>
  The driver is C++ for 32-bit Windows: \<open>char\<close> is a signed 8-bit value, \<open>int\<close>,
  \<open>long\<close> and \<open>SQLINTEGER\<close> are 32 bits, \<open>SQLSMALLINT\<close> is 16 bits. A C string is the
  list of its bytes before the terminating NUL.
\<close>

type_synonym byte = "8 word"
type_synonym int16 = "16 word"
type_synonym int32 = "32 word"

definition strlen :: "byte list \<Rightarrow> nat" where
  "strlen cs = length (takeWhile (\<lambda>b. b \<noteq> 0) cs)"

text \<open>The conversion \<open>std::string(const char*)\<close>: everything before the first NUL.\<close>

definition c_str :: "byte list \<Rightarrow> byte list" where
  "c_str cs = takeWhile (\<lambda>b. b \<noteq> 0) cs"

section \<open>Transport session (sockets.cpp)\<close>

text \<open>
  The operating system's side of the stream is a script. \<open>incoming\<close> lists what the
  successive calls of \<open>recv\<close> will find: a chunk of bytes that has arrived, or a socket
  error; an empty chunk, or the end of the script, is the orderly close (\<open>recv\<close>
  returns 0). \<open>outgoing\<close> lists what the successive calls of \<open>send\<close> will do: accept
  at most so many bytes (a blocking \<open>send\<close> takes at least one byte of a non-empty
  buffer), or fail; at the end of the script every \<open>send\<close> takes the whole buffer.
  \<open>sent\<close> collects the bytes handed to the peer. \<open>uninit\<close> is the content of
  not yet initialised stack memory, from which the local receive buffers are made.
\<close>

datatype recv_event = Chunk "byte list" | RecvErr
datatype send_event = Accept nat | SendErr

record Socket =
  m_socket :: nat
  incoming :: "recv_event list"
  outgoing :: "send_event list"
  sent :: "byte list"
  uninit :: "nat \<Rightarrow> byte"

text \<open>\<open>recv(m_socket, buffer, len, 0)\<close>: \<open>None\<close> is \<open>SOCKET_ERROR\<close>, \<open>Some bs\<close> the
  bytes stored at \<open>buffer\<close> (the result is their number).\<close>

definition recv :: "Socket \<Rightarrow> nat \<Rightarrow> byte list option \<times> Socket" where
  "recv s len =
     (case incoming s of
        [] \<Rightarrow> (Some [], s)
      | RecvErr # es \<Rightarrow> (None, s\<lparr>incoming := es\<rparr>)
      | Chunk bs # es \<Rightarrow>
          (Some (take len bs),
           s\<lparr>incoming := (if length bs \<le> len then es else Chunk (drop len bs) # es)\<rparr>))"

text \<open>\<open>send(m_socket, buffer, len, 0)\<close>: \<open>None\<close> is \<open>SOCKET_ERROR\<close>, \<open>Some n\<close> the
  number of bytes taken.\<close>

definition send :: "Socket \<Rightarrow> byte list \<Rightarrow> nat option \<times> Socket" where
  "send s bs =
     (case outgoing s of
        [] \<Rightarrow> (Some (length bs), s\<lparr>sent := sent s @ bs\<rparr>)
      | SendErr # es \<Rightarrow> (None, s\<lparr>outgoing := es\<rparr>)
      | Accept k # es \<Rightarrow>
          (let n = (if bs = [] then 0 else max 1 (min k (length bs)))
           in (Some n, s\<lparr>outgoing := es, sent := sent s @ take n bs\<rparr>)))"

definition setError :: "Socket \<Rightarrow> Socket" where
  "setError s = s\<lparr>m_socket := 0\<rparr>"

definition close :: "Socket \<Rightarrow> Socket" where
  "close s = (if m_socket s = 0 then s else s\<lparr>m_socket := 0\<rparr>)"

text \<open>Inline in h2odbc.h: \<open>bool isClosed() { return m_socket != 0; }\<close>.\<close>

definition isClosed :: "Socket \<Rightarrow> bool" where
  "isClosed s = (m_socket s \<noteq> 0)"

text \<open>Storing received bytes at \<open>buffer + pos\<close>.\<close>

definition poke :: "byte list \<Rightarrow> nat \<Rightarrow> byte list \<Rightarrow> byte list" where
  "poke buffer pos bs = take pos buffer @ bs @ drop (pos + length bs) buffer"

text \<open>
  The \<open>do ... while(len>0)\<close> loop of \<open>Socket::read\<close>; \<open>pos\<close> is how far \<open>buffer\<close> has
  been advanced. Every call site passes a positive length.
\<close>

function read_loop :: "Socket \<Rightarrow> byte list \<Rightarrow> nat \<Rightarrow> nat \<Rightarrow> byte list \<times> Socket" where
  "read_loop s buffer pos len =
     (case recv s len of
        (None, s') \<Rightarrow> (buffer, setError s')
      | (Some bs, s') \<Rightarrow>
          if bs = [] then (buffer, setError s')
          else if len - length bs > 0
               then read_loop s' (poke buffer pos bs) (pos + length bs) (len - length bs)
               else (poke buffer pos bs, s'))"
  by pat_completeness auto
termination
  by (relation "measure (\<lambda>(s, buffer, pos, len). len)") auto

definition Socket_read :: "Socket \<Rightarrow> byte list \<Rightarrow> nat \<Rightarrow> byte list \<times> Socket" where
  "Socket_read s buffer len = (if m_socket s = 0 then (buffer, s) else read_loop s buffer 0 len)"

text \<open>A local \<open>char buffer[n]\<close>: \<open>n\<close> bytes of uninitialised stack.\<close>

definition local_buffer :: "Socket \<Rightarrow> nat \<Rightarrow> byte list" where
  "local_buffer s n = map (uninit s) [0..<n]"

function write_loop :: "Socket \<Rightarrow> byte list \<Rightarrow> Socket" where
  "write_loop s bs =
     (case send s bs of
        (None, s') \<Rightarrow> setError s'
      | (Some n, s') \<Rightarrow>
          if drop n bs \<noteq> [] then write_loop s' (drop n bs) else s')"
  by pat_completeness auto
termination
proof (relation "measure (\<lambda>(s, bs). length bs)")
  show "wf (measure (\<lambda>(s, bs). length bs))" by simp
next
  fix s :: Socket and bs :: "byte list" and x y n
  assume "(x, y) = send s bs" and "x = Some n" and ne: "drop n bs \<noteq> []"
  then have snd: "send s bs = (Some n, y)" by simp
  from ne have "bs \<noteq> []" by auto
  with snd have "0 < n"
    by (auto simp: send_def Let_def split: list.splits send_event.splits)
  with ne show "((y, drop n bs), (s, bs)) \<in> measure (\<lambda>(s, bs). length bs)" by simp
qed

text \<open>\<open>Socket::read\<close> and \<open>Socket::write\<close> carry the class name here. For
  \<open>Socket::write(buffer, len)\<close> the list is the \<open>len\<close> bytes at \<open>buffer\<close>.\<close>

definition Socket_write :: "Socket \<Rightarrow> byte list \<Rightarrow> Socket" where
  "Socket_write s bs = (if m_socket s = 0 then s else write_loop s bs)"

definition readByte :: "Socket \<Rightarrow> int32 \<times> Socket" where
  "readByte s =
     (if m_socket s = 0 then (- 1, s)
      else let (buffer, s') = Socket_read s (local_buffer s 1) 1
           in (scast (buffer ! 0), s'))"

text \<open>
  The expression of \<open>readInt\<close> over its \<open>char buffer[4]\<close>: each \<open>char\<close> is promoted
  to \<open>int\<close> with its sign, masked, and shifted.
\<close>

definition int_of_buffer :: "byte list \<Rightarrow> int32" where
  "int_of_buffer buffer =
     push_bit 24 ((scast (buffer ! 0) :: int32) AND 0xff)
     OR push_bit 16 ((scast (buffer ! 1) :: int32) AND 0xff)
     OR push_bit 8 ((scast (buffer ! 2) :: int32) AND 0xff)
     OR ((scast (buffer ! 3) :: int32) AND 0xff)"

definition readInt :: "Socket \<Rightarrow> int32 \<times> Socket" where
  "readInt s =
     (if m_socket s = 0 then (- 1, s)
      else let (buffer, s') = Socket_read s (local_buffer s 4) 4
           in (int_of_buffer buffer, s'))"

text \<open>The four assignments of \<open>writeInt\<close> to its \<open>char buffer[4]\<close>; \<open>>>\<close> on an
  \<open>int\<close> is the arithmetic shift.\<close>

definition buffer_of_int :: "int32 \<Rightarrow> byte list" where
  "buffer_of_int x =
     [ucast (signed_drop_bit 24 x AND 0xff),
      ucast (signed_drop_bit 16 x AND 0xff),
      ucast (signed_drop_bit 8 x AND 0xff),
      ucast (x AND 0xff)]"

definition writeInt :: "int32 \<Rightarrow> Socket \<Rightarrow> Socket" where
  "writeInt x s = Socket_write s (buffer_of_int x)"

definition writeByte :: "int32 \<Rightarrow> Socket \<Rightarrow> Socket" where
  "writeByte b s = Socket_write s [ucast b]"

definition writeBool :: "bool \<Rightarrow> Socket \<Rightarrow> Socket" where
  "writeBool x s = writeInt (if x then 1 else 0) s"

definition readBool :: "Socket \<Rightarrow> bool \<times> Socket" where
  "readBool s = (let (x, s') = readInt s in (x = 1, s'))"

text \<open>
  \<open>Socket::writeString\<close>: \<open>int len = strlen(string)\<close>, then the length and \<open>len\<close>
  bytes of the string.
\<close>

definition writeString :: "byte list \<Rightarrow> Socket \<Rightarrow> Socket" where
  "writeString string s =
     (let len = (word_of_nat (strlen string) :: int32)
      in Socket_write (writeInt len s) (take (nat (sint len)) string))"

text \<open>
  \<open>Socket::readString\<close>: the buffer is \<open>char buffer[len+1]\<close>; the result is the
  \<open>std::string\<close> made from it.
\<close>

definition readString :: "Socket \<Rightarrow> byte list \<times> Socket" where
  "readString s =
     (if m_socket s = 0 then ([], s)
      else let (len0, s1) = readInt s;
               len = (if sint len0 < 0 then 0 else len0);
               buffer = local_buffer s1 (unat len + 1)
           in if len = 0 then (c_str (buffer[0 := 0]), s1)
              else let (buffer', s2) = Socket_read s1 buffer (unat len)
                   in (c_str (buffer'[unat len := 0]), s2))"


section \<open>Constants\<close>

text \<open>
  Constants of the platform's ODBC headers (\<open>sql.h\<close>, \<open>sqlext.h\<close>), which the driver
  includes and which are not part of the repository.
\<close>

definition SQL_NULL_DATA :: int32 where "SQL_NULL_DATA = - 1"
definition SQL_DATA_AT_EXEC :: int32 where "SQL_DATA_AT_EXEC = - 2"
definition SQL_NTS :: int32 where "SQL_NTS = - 3"
definition SQL_DEFAULT_PARAM :: int32 where "SQL_DEFAULT_PARAM = - 5"

definition SQL_INTEGER :: int32 where "SQL_INTEGER = 4"
definition SQL_SMALLINT :: int32 where "SQL_SMALLINT = 5"
definition SQL_DOUBLE :: int32 where "SQL_DOUBLE = 8"
definition SQL_VARCHAR :: int32 where "SQL_VARCHAR = 12"

definition SQL_C_CHAR :: int32 where "SQL_C_CHAR = 1"
definition SQL_C_LONG :: int32 where "SQL_C_LONG = 4"
definition SQL_C_SHORT :: int32 where "SQL_C_SHORT = 5"
definition SQL_C_DOUBLE :: int32 where "SQL_C_DOUBLE = 8"
definition SQL_C_SSHORT :: int32 where "SQL_C_SSHORT = 5 - 20"
definition SQL_C_SLONG :: int32 where "SQL_C_SLONG = 4 - 20"
definition SQL_C_ULONG :: int32 where "SQL_C_ULONG = 4 - 22"

definition SQL_SUCCESS :: int16 where "SQL_SUCCESS = 0"
definition SQL_ERROR :: int16 where "SQL_ERROR = - 1"
definition SQL_INVALID_HANDLE :: int16 where "SQL_INVALID_HANDLE = - 2"

text \<open>From h2odbc.h.\<close>

definition MAGIC_ENVIRONMENT :: int32 where "MAGIC_ENVIRONMENT = 0xABC0"
definition MAGIC_CONNECTION :: int32 where "MAGIC_CONNECTION = 0xABC1"
definition MAGIC_STATEMENT :: int32 where "MAGIC_STATEMENT = 0xABC2"
definition MAGIC_DESCRIPTOR :: int32 where "MAGIC_DESCRIPTOR = 0xABC3"

definition E_07009 :: string where "E_07009 = ''07009 Invalid descriptor index''"
definition E_08001 :: string where "E_08001 = ''08001 Client unable to establish connection''"
definition E_08004 :: string where "E_08004 = ''08004 Server rejected the connection''"
definition E_42000 :: string where "E_42000 = ''42000 Syntax error or access violation''"

text \<open>A character literal as an \<open>int\<close>, a string literal as a C string.\<close>

definition chr :: "char \<Rightarrow> int32" where
  "chr c = of_char c"

definition cstr :: "string \<Rightarrow> byte list" where
  "cstr cs = map of_char cs"

section \<open>Application memory\<close>

text \<open>
  The buffers and indicators an application binds are addresses in its memory, with 0
  the null pointer. Multi-byte values are stored little-endian, as on x86.
\<close>

type_synonym addr = nat
type_synonym mem = "addr \<Rightarrow> byte"

definition store_bytes :: "mem \<Rightarrow> addr \<Rightarrow> byte list \<Rightarrow> mem" where
  "store_bytes m a bs = (\<lambda>p. if a \<le> p \<and> p < a + length bs then bs ! (p - a) else m p)"

definition load_bytes :: "mem \<Rightarrow> addr \<Rightarrow> nat \<Rightarrow> byte list" where
  "load_bytes m a n = map m [a..<a + n]"

definition store32 :: "mem \<Rightarrow> addr \<Rightarrow> int32 \<Rightarrow> mem" where
  "store32 m a v =
     store_bytes m a [ucast v, ucast (drop_bit 8 v), ucast (drop_bit 16 v), ucast (drop_bit 24 v)]"

definition load32 :: "mem \<Rightarrow> addr \<Rightarrow> int32" where
  "load32 m a = ucast (m a) OR push_bit 8 (ucast (m (a + 1)))
                OR push_bit 16 (ucast (m (a + 2))) OR push_bit 24 (ucast (m (a + 3)))"

definition store16 :: "mem \<Rightarrow> addr \<Rightarrow> int16 \<Rightarrow> mem" where
  "store16 m a v = store_bytes m a [ucast v, ucast (drop_bit 8 v)]"

definition load16 :: "mem \<Rightarrow> addr \<Rightarrow> int16" where
  "load16 m a = ucast (m a) OR push_bit 8 (ucast (m (a + 1)))"

section \<open>C library\<close>

text \<open>\<open>strncpy(dest, src, n)\<close> as the \<open>n\<close> bytes it leaves at \<open>dest\<close>: the source up to
  its NUL, then zeros.\<close>

definition strncpy :: "byte list \<Rightarrow> nat \<Rightarrow> byte list" where
  "strncpy src n = (let cs = c_str (take n src) in cs @ replicate (n - length cs) 0)"

definition isspace :: "byte \<Rightarrow> bool" where
  "isspace b = (b = 0x20 \<or> (9 \<le> b \<and> b \<le> 13))"

definition isdigit :: "byte \<Rightarrow> bool" where
  "isdigit b = (0x30 \<le> b \<and> b \<le> 0x39)"

fun atoi_digits :: "byte list \<Rightarrow> int \<Rightarrow> int" where
  "atoi_digits [] acc = acc"
| "atoi_digits (c # cs) acc =
     (if isdigit c then atoi_digits cs (acc * 10 + (uint c - 0x30)) else acc)"

text \<open>\<open>atoi\<close>: white space, an optional sign, digits. A value that does not fit an
  \<open>int\<close> is undefined in C; here it wraps.\<close>

definition atoi :: "byte list \<Rightarrow> int32" where
  "atoi cs =
     (case dropWhile isspace (c_str cs) of
        [] \<Rightarrow> 0
      | c # rest \<Rightarrow>
          if c = 0x2D then word_of_int (- atoi_digits rest 0)
          else if c = 0x2B then word_of_int (atoi_digits rest 0)
          else word_of_int (atoi_digits (c # rest) 0))"

fun digits10 :: "nat \<Rightarrow> byte list" where
  "digits10 n = (if n < 10 then [0x30 + of_nat n]
                 else digits10 (n div 10) @ [0x30 + of_nat (n mod 10)])"

text \<open>\<open>itoa(value, buffer, 10)\<close>: decimal, with a minus sign for a negative value.\<close>

definition itoa :: "int32 \<Rightarrow> byte list" where
  "itoa v = (if sint v < 0 then 0x2D # digits10 (nat (- sint v)) else digits10 (nat (sint v)))"

text \<open>\<open>std::string::find(char)\<close> stored in an \<open>int\<close>: \<open>npos\<close> becomes \<open>-1\<close>.\<close>

definition find_char :: "byte list \<Rightarrow> byte \<Rightarrow> int" where
  "find_char s c = (if c \<in> set s then int (length (takeWhile (\<lambda>b. b \<noteq> c) s)) else - 1)"


section \<open>Descriptor records (h2odbc.h, odbcDescriptor.cpp, sqlUtils.cpp)\<close>

text \<open>
  \<open>m_pointer\<close> and \<open>m_statusPointer\<close> are the bound buffer and the bound length or
  null indicator. The tag \<open>m_magic\<close> of a record and the pointer back to its
  descriptor are read by none of the operations below and are left out.
\<close>

record DescriptorRecord =
  m_sqlDataType :: int32
  m_cDataType :: int32
  m_name :: "byte list"
  m_columnName :: "byte list"
  m_tableName :: "byte list"
  m_pointer :: addr
  m_statusPointer :: addr
  m_targetBufferLength :: int32
  m_dataInt :: int32
  m_dataString :: "byte list"
  m_precision :: int32
  m_scale :: int32
  m_displaySize :: int32
  m_wasNull :: bool

text \<open>The constructor \<open>DescriptorRecord(Descriptor* d)\<close>.\<close>

definition new_DescriptorRecord :: DescriptorRecord where
  "new_DescriptorRecord =
     \<lparr>m_sqlDataType = 0, m_cDataType = 0, m_name = [], m_columnName = [], m_tableName = [],
      m_pointer = 0, m_statusPointer = 0, m_targetBufferLength = 0, m_dataInt = 0,
      m_dataString = [], m_precision = 0, m_scale = 0, m_displaySize = 0, m_wasNull = False\<rparr>"

text \<open>
  \<open>returnString(SQLPOINTER dest, SQLINTEGER dest_len, SQLINTEGER* dest_pt, const char*
  source)\<close>, the overload that \<open>copyData\<close> calls. \<open>source\<close> is \<open>None\<close> for the null
  pointer. The result \<open>None\<close> is a memory fault: a negative length given to
  \<open>strncpy\<close> is a count of some four thousand million bytes.
\<close>

definition returnString :: "mem \<Rightarrow> addr \<Rightarrow> int32 \<Rightarrow> addr \<Rightarrow> byte list option \<Rightarrow> mem option" where
  "returnString m dest dest_len dest_pt source =
     (if dest_len = 0 then Some m
      else let s = (case source of None \<Rightarrow> [] | Some cs \<Rightarrow> cs);
               len0 = (word_of_nat (strlen s) :: int32);
               len = (if sint dest_len < sint len0 then dest_len else len0);
               m1 = (if dest_pt \<noteq> 0 then store32 m dest_pt len else m)
           in if dest \<noteq> 0
              then (if sint len < 0 then None
                    else Some ((store_bytes m1 dest (strncpy s (nat (sint len))))
                                 (dest + nat (sint len) := 0)))
              else Some m1)"

text \<open>\<open>returnInt(SQLPOINTER InfoValue, SQLINTEGER* LengthPtr, SQLUINTEGER value)\<close> and
  \<open>returnSmall(SQLPOINTER InfoValue, SQLINTEGER* LengthPtr, SQLUSMALLINT value)\<close>: the
  value is stored without a test of \<open>InfoValue\<close>, so a null pointer is a memory fault.\<close>

definition returnInt :: "mem \<Rightarrow> addr \<Rightarrow> addr \<Rightarrow> int32 \<Rightarrow> mem option" where
  "returnInt m InfoValue LengthPtr v =
     (let m1 = (if LengthPtr \<noteq> 0 then store32 m LengthPtr 4 else m)
      in if InfoValue = 0 then None else Some (store32 m1 InfoValue v))"

definition returnSmall :: "mem \<Rightarrow> addr \<Rightarrow> addr \<Rightarrow> int16 \<Rightarrow> mem option" where
  "returnSmall m InfoValue LengthPtr v =
     (let m1 = (if LengthPtr \<noteq> 0 then store32 m LengthPtr 2 else m)
      in if InfoValue = 0 then None else Some (store16 m1 InfoValue v))"

text \<open>\<open>DescriptorRecord::getString\<close>; \<open>None\<close> is the null pointer returned for type 0.\<close>

definition getString :: "DescriptorRecord \<Rightarrow> byte list option" where
  "getString r =
     (if m_sqlDataType r = SQL_VARCHAR then Some (m_dataString r)
      else if m_sqlDataType r = SQL_SMALLINT \<or> m_sqlDataType r = SQL_INTEGER
           then Some (itoa (m_dataInt r))
      else if m_sqlDataType r = 0 then None
      else Some [])"

definition getInt :: "DescriptorRecord \<Rightarrow> int32" where
  "getInt r =
     (if m_sqlDataType r = SQL_VARCHAR then atoi (m_dataString r)
      else if m_sqlDataType r = SQL_SMALLINT \<or> m_sqlDataType r = SQL_INTEGER then m_dataInt r
      else 0)"

definition setNull :: "mem \<Rightarrow> DescriptorRecord \<Rightarrow> mem" where
  "setNull m r = (if m_statusPointer r \<noteq> 0 then store32 m (m_statusPointer r) SQL_NULL_DATA else m)"

text \<open>\<open>ir->copyData(ar)\<close>: from the implementation record \<open>ir\<close> into the memory bound
  by the application record \<open>ar\<close>.\<close>

definition copyData :: "mem \<Rightarrow> DescriptorRecord \<Rightarrow> DescriptorRecord \<Rightarrow> mem option" where
  "copyData m ir ar =
     (if m_wasNull ir then Some (setNull m ar)
      else if m_cDataType ar = SQL_C_CHAR
           then returnString m (m_pointer ar) (m_targetBufferLength ar) (m_statusPointer ar)
                  (getString ir)
      else if m_cDataType ar = SQL_C_SLONG \<or> m_cDataType ar = SQL_C_ULONG
           then returnInt m (m_pointer ar) (m_statusPointer ar) (getInt ir)
      else if m_cDataType ar = SQL_C_SSHORT
           then returnSmall m (m_pointer ar) (m_statusPointer ar) (ucast (getInt ir))
      else Some m)"

text \<open>\<open>DescriptorRecord::readMeta\<close>.\<close>

definition readMeta :: "Socket \<Rightarrow> DescriptorRecord \<Rightarrow> DescriptorRecord \<times> Socket" where
  "readMeta s r =
     (let (ty, s1) = readInt s;
          (tab, s2) = readString s1;
          (nam, s3) = readString s2;
          (prec, s4) = readInt s3;
          (scal, s5) = readInt s4;
          (disp, s6) = readInt s5
      in (r\<lparr>m_sqlDataType := ty, m_tableName := tab, m_name := nam, m_columnName := nam,
             m_precision := prec, m_scale := scal, m_displaySize := disp\<rparr>, s6))"

text \<open>\<open>DescriptorRecord::readData\<close>.\<close>

definition readData :: "Socket \<Rightarrow> DescriptorRecord \<Rightarrow> DescriptorRecord \<times> Socket" where
  "readData s r =
     (if m_sqlDataType r = 0 then (r\<lparr>m_wasNull := True, m_dataInt := 0\<rparr>, s)
      else if m_sqlDataType r = SQL_SMALLINT \<or> m_sqlDataType r = SQL_INTEGER
           then (let (n, s1) = readBool s
                 in if n then (r\<lparr>m_wasNull := True, m_dataInt := 0\<rparr>, s1)
                    else (let (v, s2) = readInt s1
                          in (r\<lparr>m_wasNull := False, m_dataInt := v\<rparr>, s2)))
      else if m_sqlDataType r = SQL_VARCHAR
           then (let (v, s1) = readString s in (r\<lparr>m_wasNull := False, m_dataString := v\<rparr>, s1))
      else (r\<lparr>m_wasNull := False\<rparr>, s))"

text \<open>
  \<open>DescriptorRecord::sendParameterValue\<close>. The indicator is read only where
  \<open>m_statusPointer\<close> is not null.
\<close>

definition sendParameterValue :: "mem \<Rightarrow> DescriptorRecord \<Rightarrow> Socket \<Rightarrow> Socket" where
  "sendParameterValue m r s =
     (if m_statusPointer r \<noteq> 0 \<and> load32 m (m_statusPointer r) = SQL_NULL_DATA
      then writeInt 0 s
      else let ind = load32 m (m_statusPointer r);
               len = (if m_statusPointer r = 0 then m_targetBufferLength r
                      else if ind = SQL_NTS then m_targetBufferLength r
                      else if ind = SQL_DEFAULT_PARAM then m_targetBufferLength r
                      else if ind = SQL_DATA_AT_EXEC then m_targetBufferLength r
                      else ind)
           in if m_pointer r = 0 then writeInt 0 s
              else if m_cDataType r = SQL_C_SHORT
                   then writeInt (scast (load16 m (m_pointer r))) (writeInt SQL_INTEGER s)
              else if m_cDataType r = SQL_C_LONG
                   then writeInt (load32 m (m_pointer r)) (writeInt SQL_INTEGER s)
              else if m_cDataType r = SQL_C_CHAR
                   then (if sint len < 0 then writeInt 0 s
                         else writeString
                                (strncpy (load_bytes m (m_pointer r) (nat (sint len)))
                                   (nat (sint len)) @ [0])
                                (writeInt SQL_VARCHAR s))
              else s)"

section \<open>Descriptors (h2odbc.h, odbcDescriptor.cpp)\<close>

text \<open>
  Of a descriptor, the tag, the record vector and the diagnostic; the binding
  orientation, array size and output pointers of the header are touched by no operation
  modelled here.
\<close>

record Descriptor =
  m_magic :: int32
  m_records :: "DescriptorRecord list"
  m_error :: "string option"

definition new_Descriptor :: Descriptor where
  "new_Descriptor = \<lparr>m_magic = MAGIC_DESCRIPTOR, m_records = [], m_error = None\<rparr>"

definition clearRecords :: "Descriptor \<Rightarrow> Descriptor" where
  "clearRecords d = d\<lparr>m_records := []\<rparr>"

definition addRecord :: "DescriptorRecord \<Rightarrow> Descriptor \<Rightarrow> Descriptor" where
  "addRecord r d = d\<lparr>m_records := m_records d @ [r]\<rparr>"

definition getRecordCount :: "Descriptor \<Rightarrow> int" where
  "getRecordCount d = int (length (m_records d))"

text \<open>\<open>getRecord(i)\<close> is \<open>m_records[i]\<close>, an unchecked vector access: outside the vector
  its behaviour is undefined, here \<open>None\<close>.\<close>

definition getRecord :: "Descriptor \<Rightarrow> int \<Rightarrow> DescriptorRecord option" where
  "getRecord d i =
     (if 0 \<le> i \<and> i < int (length (m_records d)) then Some (m_records d ! nat i) else None)"


section \<open>Statements (h2odbc.h, odbcStatement.cpp)\<close>

text \<open>
  A statement owns its four descriptors (\<open>m_appRow\<close> and the others point to the
  members \<open>m_appRowDefault\<close> and so on, and nothing re-points them). It borrows the
  socket of its connection for each call: the operations take the socket and return it.
\<close>

datatype StatementState = S_PREPARED | S_EXECUTED | S_POSITIONED | S_CLOSED

record Statement =
  m_magic :: int32
  m_appRow :: Descriptor
  m_impRow :: Descriptor
  m_appParam :: Descriptor
  m_impParam :: Descriptor
  m_state :: StatementState
  m_sql :: "byte list"
  m_columnCount :: int32
  m_updateCount :: int32
  m_resultSetId :: int32
  m_preparedId :: int32
  m_rowId :: int32
  m_hasResultSet :: bool
  m_parameterCount :: int32
  m_useBookmarks :: bool
  m_error :: "string option"

text \<open>The constructor leaves \<open>m_state\<close> uninitialised: it is whatever \<open>st0\<close> the memory
  held.\<close>

definition new_Statement :: "StatementState \<Rightarrow> Statement" where
  "new_Statement st0 =
     \<lparr>m_magic = MAGIC_STATEMENT, m_appRow = new_Descriptor, m_impRow = new_Descriptor,
      m_appParam = new_Descriptor, m_impParam = new_Descriptor, m_state = st0, m_sql = [],
      m_columnCount = 0, m_updateCount = 0, m_resultSetId = - 1, m_preparedId = 0,
      m_rowId = 0, m_hasResultSet = False, m_parameterCount = 0, m_useBookmarks = False,
      m_error = None\<rparr>"

text \<open>The loop \<open>for(int i=0; i<m_columnCount; i++)\<close> of \<open>processResultSet\<close>; the first
  argument counts the iterations that remain.\<close>

fun result_columns ::
  "nat \<Rightarrow> Socket \<Rightarrow> Descriptor \<Rightarrow> Descriptor \<Rightarrow> Descriptor \<times> Descriptor \<times> Socket" where
  "result_columns 0 s imp app = (imp, app, s)"
| "result_columns (Suc n) s imp app =
     (let (r, s1) = readMeta s new_DescriptorRecord
      in result_columns n s1 (addRecord r imp) (addRecord new_DescriptorRecord app))"

definition processResultSet :: "Socket \<Rightarrow> Statement \<Rightarrow> Statement \<times> Socket" where
  "processResultSet s st =
     (let st1 = st\<lparr>m_rowId := 0, m_updateCount := 0, m_state := S_EXECUTED,
                    m_hasResultSet := True\<rparr>;
          (rsid, s1) = readInt s;
          (cols, s2) = readInt s1;
          (imp, app, s3) = result_columns (nat (sint cols)) s2
                             (clearRecords (m_impRow st1)) (clearRecords (m_appRow st1))
      in (st1\<lparr>m_resultSetId := rsid, m_columnCount := cols, m_impRow := imp, m_appRow := app\<rparr>,
          s3))"

definition prepare :: "byte list \<Rightarrow> Socket \<Rightarrow> Statement \<Rightarrow> bool \<times> Statement \<times> Socket" where
  "prepare sql s st =
     (let st1 = st\<lparr>m_state := S_PREPARED\<rparr>;
          s1 = writeString sql (writeByte (chr CHR ''P'') s);
          st2 = st1\<lparr>m_sql := c_str sql\<rparr>;
          (result, s2) = readByte s1
      in if result = chr CHR ''E''
         then (False, st2\<lparr>m_parameterCount := 0, m_state := S_CLOSED, m_error := Some E_42000\<rparr>, s2)
         else if result = chr CHR ''O''
         then (let (pid, s3) = readInt s2;
                   (n, s4) = readInt s3
               in (True, st2\<lparr>m_preparedId := pid, m_parameterCount := n,
                              m_impParam := clearRecords (m_impParam st2),
                              m_appParam := clearRecords (m_appParam st2)\<rparr>, s4))
         else (True, st2, s2))"

definition addParameter :: "Statement \<Rightarrow> Statement" where
  "addParameter st =
     st\<lparr>m_impParam := addRecord new_DescriptorRecord (m_impParam st),
        m_appParam := addRecord new_DescriptorRecord (m_appParam st)\<rparr>"

text \<open>The loop \<open>for(int i=0; i<m_parameterCount; i++)\<close> of \<open>executePrepared\<close>, from
  index \<open>i\<close> with \<open>k\<close> iterations remaining. \<open>None\<close>: \<open>getRecord\<close> was undefined.\<close>

fun send_parameters :: "mem \<Rightarrow> Descriptor \<Rightarrow> nat \<Rightarrow> nat \<Rightarrow> Socket \<Rightarrow> Socket option" where
  "send_parameters m desc i 0 s = Some s"
| "send_parameters m desc i (Suc k) s =
     (let s1 = writeInt (of_nat i) (writeByte (chr CHR ''1'') s)
      in case getRecord desc (int i) of
           None \<Rightarrow> None
         | Some r \<Rightarrow> send_parameters m desc (Suc i) k (sendParameterValue m r s1))"

definition executePrepared ::
  "mem \<Rightarrow> Socket \<Rightarrow> Statement \<Rightarrow> (bool \<times> Statement \<times> Socket) option" where
  "executePrepared m s st =
     (let s1 = writeInt (m_preparedId st) (writeByte (chr CHR ''Q'') s)
      in case send_parameters m (m_appParam st) 0 (nat (sint (m_parameterCount st))) s1 of
           None \<Rightarrow> None
         | Some s2 \<Rightarrow>
             (let s3 = writeByte (chr CHR ''0'') s2;
                  (result, s4) = readByte s3;
                  st1 = st\<lparr>m_state := S_EXECUTED, m_rowId := 0, m_resultSetId := 0,
                           m_columnCount := 0, m_updateCount := 0\<rparr>
              in if result = chr CHR ''E''
                 then Some (False, st1\<lparr>m_state := S_CLOSED, m_error := Some E_42000\<rparr>, s4)
                 else if result = chr CHR ''R''
                 then (let (st2, s5) = processResultSet s4 st1 in Some (True, st2, s5))
                 else if result = chr CHR ''U''
                 then (let (n, s5) = readInt s4
                       in Some (True, st1\<lparr>m_state := S_EXECUTED, m_hasResultSet := False,
                                           m_updateCount := n\<rparr>, s5))
                 else Some (True, st1, s4)))"

definition execute ::
  "mem \<Rightarrow> byte list \<Rightarrow> Socket \<Rightarrow> Statement \<Rightarrow> (bool \<times> Statement \<times> Socket) option" where
  "execute m sql s st =
     (let s1 = writeString sql (writeByte (chr CHR ''E'') s);
          st0 = st\<lparr>m_sql := c_str sql\<rparr>;
          (result, s2) = readByte s1;
          st1 = st0\<lparr>m_state := S_EXECUTED, m_rowId := 0, m_resultSetId := 0,
                    m_columnCount := 0, m_updateCount := 0, m_parameterCount := 0\<rparr>
      in if result = chr CHR ''E''
         then Some (False, st1\<lparr>m_state := S_CLOSED, m_error := Some E_42000\<rparr>, s2)
         else if result = chr CHR ''R''
         then (let (st2, s3) = processResultSet s2 st1 in Some (True, st2, s3))
         else if result = chr CHR ''U''
         then (let (n, s3) = readInt s2
               in Some (True, st1\<lparr>m_state := S_EXECUTED, m_hasResultSet := False,
                                   m_updateCount := n\<rparr>, s3))
         else if result = chr CHR ''O''
         then (let (pid, s3) = readInt s2;
                   (n, s4) = readInt s3
               in executePrepared m s4 (st1\<lparr>m_preparedId := pid, m_parameterCount := n\<rparr>))
         else Some (True, st1, s2))"

definition closeCursor :: "Socket \<Rightarrow> Statement \<Rightarrow> Statement \<times> Socket" where
  "closeCursor s st =
     (if 0 \<le> sint (m_resultSetId st)
      then (st\<lparr>m_resultSetId := - 1, m_state := S_CLOSED\<rparr>,
            writeInt (m_resultSetId st) (writeByte (chr CHR ''F'') s))
      else (st\<lparr>m_state := S_CLOSED\<rparr>, s))"

text \<open>The destructor zeroes the tag.\<close>

definition Statement_dtor :: "Statement \<Rightarrow> Statement" where
  "Statement_dtor st = (if m_magic st = MAGIC_STATEMENT then st\<lparr>m_magic := 0\<rparr> else st)"

section \<open>Connections (h2odbc.h, odbc.cpp)\<close>

datatype ConnectionState = C_INIT | C_OPEN | C_CLOSED

text \<open>\<open>m_socket\<close> is a pointer that the constructor does not set: \<open>None\<close> until \<open>open\<close>
  has made the socket.\<close>

record Connection =
  m_magic :: int32
  m_state :: ConnectionState
  m_name :: "byte list"
  m_user :: "byte list"
  m_password :: "byte list"
  m_readOnly :: bool
  m_autoCommit :: bool
  m_socket :: "Socket option"
  m_error :: "string option"
  m_dataSourceName :: "byte list"

text \<open>
  What the network does with a connection attempt to a host and port: the outcome, and
  the socket the operating system hands out (its handle and the peer's script).
\<close>

datatype connect_outcome = SocketFailed | HostNotFound | ConnectFailed | Connected

type_synonym network = "byte list \<Rightarrow> int32 \<Rightarrow> connect_outcome \<times> Socket"

text \<open>The constructor \<open>Socket(host, port)\<close>: each of the three failures ends in
  \<open>setError\<close>.\<close>

definition Socket_ctor :: "network \<Rightarrow> byte list \<Rightarrow> int32 \<Rightarrow> Socket" where
  "Socket_ctor net host port =
     (case net host port of (outcome, s) \<Rightarrow> if outcome = Connected then s else setError s)"

text \<open>\<open>s.substr(pos)\<close> and \<open>s.substr(0, n)\<close> with the position and the count converted
  from an \<open>int\<close>: \<open>-1\<close> is \<open>npos\<close>, beyond every length.\<close>

definition substr_from :: "byte list \<Rightarrow> int \<Rightarrow> byte list" where
  "substr_from s pos = drop (nat pos) s"

definition substr_to :: "byte list \<Rightarrow> int \<Rightarrow> byte list" where
  "substr_to s n = (if n < 0 then s else take (nat n) s)"

text \<open>
  \<open>Connection::open\<close>. The statements \<open>m_state == C_CLOSED;\<close> and \<open>m_state == C_OPEN;\<close>
  of the source are comparisons whose value is dropped: they assign nothing.
\<close>

definition "open" ::
  "network \<Rightarrow> byte list \<Rightarrow> byte list \<Rightarrow> byte list \<Rightarrow> Connection \<Rightarrow> Connection" where
  "open net name user password c =
     (let c1 = c\<lparr>m_name := name, m_user := user, m_password := password\<rparr>;
          prefix = cstr ''jdbc:h2:odbc://''
      in if take (length prefix) name \<noteq> prefix then c1
         else let server = substr_from name (int (length prefix));
                  dbnameIdx = find_char server 0x2F
              in if dbnameIdx \<le> 0 then c1\<lparr>m_error := Some ''Wrong URL format''\<rparr>
                 else let dbname = substr_from server (dbnameIdx + 1);
                          server1 = substr_to server dbnameIdx;
                          portIdx = find_char server1 0x3A;
                          port = (if portIdx \<noteq> 0 then atoi (substr_from server1 (portIdx + 1))
                                  else 9082);
                          server2 = (if portIdx \<noteq> 0 then substr_to server1 portIdx else server1);
                          sock = Socket_ctor net server2 port;
                          c2 = c1\<lparr>m_socket := Some sock\<rparr>
                      in if isClosed sock then c2\<lparr>m_error := Some E_08001\<rparr>
                         else let s1 = writeByte (chr CHR ''C'') sock;
                                  s2 = writeString password
                                         (writeString user (writeString dbname s1));
                                  (result, s3) = readByte s2;
                                  c3 = c2\<lparr>m_socket := Some s3\<rparr>
                              in if result = chr CHR ''O'' then c3
                                 else c3\<lparr>m_error := Some E_08004\<rparr>)"

text \<open>\<open>Connection::setAutoCommit\<close>; \<open>None\<close> where the socket pointer was never set.\<close>

definition setAutoCommit :: "bool \<Rightarrow> Connection \<Rightarrow> Connection option" where
  "setAutoCommit autocommit c =
     (if autocommit \<noteq> m_autoCommit c
      then (case m_socket c of
              None \<Rightarrow> None
            | Some s \<Rightarrow>
                Some (c\<lparr>m_socket :=
                          Some (writeByte (if autocommit then chr CHR ''1'' else chr CHR ''0'')
                                  (writeByte (chr CHR ''A'') s)),
                        m_autoCommit := autocommit\<rparr>))
      else Some c)"

definition Connection_dtor :: "Connection \<Rightarrow> Connection" where
  "Connection_dtor c = (if m_magic c = MAGIC_CONNECTION then c\<lparr>m_magic := 0\<rparr> else c)"


section \<open>Handles (h2odbc.h, odbc.cpp, odbcStatement.cpp, odbcDescriptor.cpp, sql.cpp)\<close>

record Environment =
  m_magic :: int32
  m_openConnections :: int32
  m_behavior :: int32
  m_error :: "string option"

definition Environment_dtor :: "Environment \<Rightarrow> Environment" where
  "Environment_dtor e = (if m_magic e = MAGIC_ENVIRONMENT then e\<lparr>m_magic := 0\<rparr> else e)"

definition Descriptor_dtor :: "Descriptor \<Rightarrow> Descriptor" where
  "Descriptor_dtor d =
     (if Descriptor.m_magic d = MAGIC_DESCRIPTOR then d\<lparr>Descriptor.m_magic := 0\<rparr> else d)"

text \<open>
  A handle is an address that the application passes back. At an address lives an
  object of one of the four handle classes, or anything else. Each handle class has
  \<open>int m_magic\<close> as its first member, so \<open>p->m_magic\<close> through a pointer of the wrong
  class reads the first \<open>int\<close> of whatever is there.
\<close>

datatype object =
    EnvObj Environment
  | ConnObj Connection
  | StmtObj Statement
  | DescObj Descriptor
  | Raw int32

type_synonym heap = "addr \<Rightarrow> object"

fun first_int :: "object \<Rightarrow> int32" where
  "first_int (EnvObj e) = Environment.m_magic e"
| "first_int (ConnObj c) = Connection.m_magic c"
| "first_int (StmtObj st) = Statement.m_magic st"
| "first_int (DescObj d) = Descriptor.m_magic d"
| "first_int (Raw v) = v"

text \<open>The casts return the pointer, or 0.\<close>

definition Environment_cast :: "heap \<Rightarrow> addr \<Rightarrow> addr" where
  "Environment_cast h pointer =
     (if pointer = 0 then 0
      else if first_int (h pointer) \<noteq> MAGIC_ENVIRONMENT then 0
      else pointer)"

definition Connection_cast :: "heap \<Rightarrow> addr \<Rightarrow> addr" where
  "Connection_cast h pointer =
     (if pointer = 0 then 0
      else if first_int (h pointer) \<noteq> MAGIC_CONNECTION then 0
      else pointer)"

definition Statement_cast :: "heap \<Rightarrow> addr \<Rightarrow> addr" where
  "Statement_cast h pointer =
     (if pointer = 0 then 0
      else if first_int (h pointer) \<noteq> MAGIC_STATEMENT then 0
      else pointer)"

text \<open>
  \<open>Descriptor::cast\<close> reads
  \<^verbatim>\<open>Descriptor* desc=Descriptor::cast(pointer);\<close>
  where its siblings have a C cast: it calls itself with the same argument. \<open>None\<close>
  is a call that does not return.
\<close>

partial_function (option) Descriptor_cast :: "heap \<Rightarrow> addr \<Rightarrow> addr option" where
  "Descriptor_cast h pointer =
     (if pointer = 0 then Some 0
      else Option.bind (Descriptor_cast h pointer)
             (\<lambda>desc. if first_int (h desc) \<noteq> MAGIC_DESCRIPTOR then Some 0 else Some desc))"

text \<open>
  \<open>SQLBindCol\<close>. The result is the return code and the heap; \<open>None\<close> is undefined
  behaviour (the unchecked \<open>getRecord\<close>, or memory that carries the tag without being
  a statement). The tests \<open>desc == 0\<close> and \<open>rec == 0\<close> of the source never hold: the
  descriptor is a member of the statement, and the records of a vector filled by
  \<open>addRecord\<close> are not null. The test \<open>ColumnNumber >= desc->getRecordCount()\<close> only
  traces.
\<close>

definition SQLBindCol ::
  "heap \<Rightarrow> addr \<Rightarrow> int16 \<Rightarrow> int16 \<Rightarrow> addr \<Rightarrow> int32 \<Rightarrow> addr \<Rightarrow> (int16 \<times> heap) option" where
  "SQLBindCol h StatementHandle ColumnNumber TargetType TargetValue BufferLength StrLen_or_Ind =
     (let stat = Statement_cast h StatementHandle
      in if stat = 0 then Some (SQL_INVALID_HANDLE, h)
         else case h stat of
                StmtObj st0 \<Rightarrow>
                  (let st = st0\<lparr>Statement.m_error := None\<rparr>;
                       desc = m_appRow st;
                       cn = ColumnNumber - 1
                   in if uint cn > sint (m_columnCount st) then Some (SQL_ERROR, h(stat := StmtObj st))
                      else case getRecord desc (uint cn) of
                             None \<Rightarrow> None
                           | Some r \<Rightarrow>
                               (let r' = r\<lparr>m_cDataType := scast TargetType,
                                            m_pointer := TargetValue,
                                            m_targetBufferLength := BufferLength,
                                            m_statusPointer := StrLen_or_Ind\<rparr>;
                                    desc' = desc\<lparr>m_records := (m_records desc)[nat (uint cn) := r']\<rparr>
                                in Some (SQL_SUCCESS, h(stat := StmtObj (st\<lparr>m_appRow := desc'\<rparr>)))))
              | _ \<Rightarrow> None)"

text \<open>\<open>SQLGetDescField\<close>, an entry point for descriptor handles.\<close>

definition SQLGetDescField :: "heap \<Rightarrow> addr \<Rightarrow> int16 \<Rightarrow> (int16 \<times> heap) option" where
  "SQLGetDescField h DescriptorHandle RecNumber =
     Option.bind (Descriptor_cast h DescriptorHandle)
       (\<lambda>desc. if desc = 0 then Some (SQL_INVALID_HANDLE, h)
                else case h desc of
                       DescObj d0 \<Rightarrow>
                         (let d = d0\<lparr>Descriptor.m_error := None\<rparr>;
                              rn = RecNumber - 1
                          in if sint rn < 0 \<or> sint rn \<le> getRecordCount d
                             then Some (SQL_ERROR,
                                        h(desc := DescObj (d\<lparr>Descriptor.m_error := Some E_07009\<rparr>)))
                             else Some (SQL_ERROR, h(desc := DescObj d)))
                     | _ \<Rightarrow> None)"


section \<open>Auxiliary notions\<close>

text \<open>A session that is alive and whose \<open>send\<close> calls do not fail.\<close>

definition sends_ok :: "Socket \<Rightarrow> bool" where
  "sends_ok s = (Socket.m_socket s \<noteq> 0 \<and> SendErr \<notin> set (outgoing s))"

text \<open>A live socket with handle 7 for the examples: what will arrive, how \<open>send\<close> will
  behave, nothing sent yet, and \<open>0xCC\<close> in all uninitialised memory.\<close>

definition wit_sock :: "recv_event list \<Rightarrow> send_event list \<Rightarrow> Socket" where
  "wit_sock inc out =
     \<lparr>Socket.m_socket = 7, incoming = inc, outgoing = out, sent = [], uninit = (\<lambda>_. 0xCC)\<rparr>"

section \<open>Example inputs\<close>

text \<open>An application memory with \<open>0xAA\<close> in every byte.\<close>

definition ex_mem :: mem where
  "ex_mem = (\<lambda>_. 0xAA)"

text \<open>A fetched VARCHAR column holding \<open>Hello\<close>, and a fetched column that was null.\<close>

definition ex_hello :: DescriptorRecord where
  "ex_hello = new_DescriptorRecord\<lparr>m_sqlDataType := SQL_VARCHAR, m_dataString := cstr ''Hello''\<rparr>"

definition ex_null :: DescriptorRecord where
  "ex_null = new_DescriptorRecord\<lparr>m_sqlDataType := SQL_INTEGER, m_wasNull := True\<rparr>"

text \<open>A column bound as \<open>SQL_C_CHAR\<close> to a buffer of 3 bytes at address 100, with its
  indicator at address 200.\<close>

definition ex_char3 :: DescriptorRecord where
  "ex_char3 = new_DescriptorRecord\<lparr>m_cDataType := SQL_C_CHAR, m_pointer := 100,
                 m_targetBufferLength := 3, m_statusPointer := 200\<rparr>"

text \<open>A network on which every connection attempt has the given outcome, with a server
  that answers \<open>'O'\<close>; a connection as its constructor leaves it; a well-formed target.\<close>

definition ex_network :: "connect_outcome \<Rightarrow> network" where
  "ex_network outcome = (\<lambda>host port. (outcome, wit_sock [Chunk [0x4F]] []))"

definition ex_connection :: Connection where
  "ex_connection =
     \<lparr>Connection.m_magic = MAGIC_CONNECTION, m_state = C_INIT, m_name = [], m_user = [],
      m_password = [], m_readOnly = False, m_autoCommit = True, m_socket = None,
      m_error = None, m_dataSourceName = []\<rparr>"

definition ex_url :: "byte list" where
  "ex_url = cstr ''jdbc:h2:odbc://localhost:9082/test''"

text \<open>A heap with a descriptor at address 4096 and a statement at address 8192.\<close>

definition ex_heap :: heap where
  "ex_heap = (\<lambda>p. if p = 4096 then DescObj new_Descriptor
                  else if p = 8192 then StmtObj (new_Statement S_CLOSED)
                  else Raw 0)"


text \<open>A prepared statement with one parameter, bound as \<open>SQL_C_DOUBLE\<close>.\<close>

definition ex_double_param :: DescriptorRecord where
  "ex_double_param = new_DescriptorRecord\<lparr>m_cDataType := SQL_C_DOUBLE, m_pointer := 100,
                        m_targetBufferLength := 8\<rparr>"

definition ex_prepared :: Statement where
  "ex_prepared = (new_Statement S_PREPARED)
       \<lparr>m_appParam := addRecord ex_double_param new_Descriptor,
        m_impParam := addRecord new_DescriptorRecord new_Descriptor,
        m_preparedId := 5, m_parameterCount := 1\<rparr>"

text \<open>A parameter bound as \<open>SQL_C_LONG\<close> with its indicator at address 200.\<close>

definition ex_null_param :: DescriptorRecord where
  "ex_null_param = new_DescriptorRecord\<lparr>m_cDataType := SQL_C_LONG, m_pointer := 100,
                      m_statusPointer := 200, m_targetBufferLength := 4\<rparr>"

text \<open>What a server sends after \<open>'R'\<close>, in three chunks: result set 7 with one column,
  of type 4, table \<open>T\<close>, name \<open>ID\<close>, precision 10, scale 0, display size 11.\<close>

definition ex_result_set :: "byte list list" where
  "ex_result_set =
     [[0, 0, 0, 7, 0, 0], [0, 1, 0, 0, 0, 4, 0, 0, 0, 1, 0x54, 0, 0, 0, 2, 0x49, 0x44],
      [0, 0, 0, 10, 0, 0, 0, 0, 0, 0, 0, 11]]"

text \<open>The replies of a server, as chunks: \<open>'R'\<close> and the result set above; \<open>'O'\<close> with
  prepared id 5 and 1 parameter, then that \<open>'R'\<close> reply.\<close>

definition ex_reply_R :: "byte list list" where
  "ex_reply_R = [0x52] # ex_result_set"

definition ex_reply_O :: "byte list list" where
  "ex_reply_O = [0x4F, 0, 0, 0, 5, 0, 0, 0, 1] # ex_reply_R"

text \<open>The runs that the examples below look at: the copy of \<open>ex_hello\<close> into the binding
  \<open>ex_char3\<close>; \<open>open\<close> on a network with a given outcome; a prepare of \<open>ex_prepared\<close>
  answered \<open>'O'\<close> with prepared id 5 and 2 parameters; an execute of \<open>ex_prepared\<close>
  answered \<open>'O'\<close> with prepared id 9 and 0 parameters, then \<open>'U'\<close> and the count 1;
  \<open>executePrepared\<close> after the rejected prepare; \<open>executePrepared\<close> of \<open>ex_prepared\<close>
  with a server that answers \<open>'U'\<close> and the count 1.\<close>

definition ex_copied :: "mem option" where
  "ex_copied = copyData ex_mem ex_hello ex_char3"

definition ex_opened :: "connect_outcome \<Rightarrow> Connection" where
  "ex_opened outcome = open (ex_network outcome) ex_url (cstr ''sa'') [] ex_connection"

definition ex_accepted :: "bool \<times> Statement \<times> Socket" where
  "ex_accepted = prepare (cstr ''X'') (wit_sock [Chunk [0x4F, 0, 0, 0, 5, 0, 0, 0, 2]] [])
                   ex_prepared"

definition ex_direct :: "(bool \<times> Statement \<times> Socket) option" where
  "ex_direct = execute ex_mem (cstr ''X'')
                 (wit_sock [Chunk [0x4F, 0, 0, 0, 9, 0, 0, 0, 0, 0x55, 0, 0, 0, 1]] []) ex_prepared"


definition ex_unsupported :: "(bool \<times> Statement \<times> Socket) option" where
  "ex_unsupported = executePrepared ex_mem (wit_sock [Chunk [0x55, 0, 0, 0, 1]] []) ex_prepared"

section \<open>Properties of the wire codec\<close>

subsection \<open>Integers\<close>

lemma ff_mask: "(0xff :: int32) = mask 8"
  by (simp add: mask_eq_exp_minus_1)

lemma scast_byte_masked: "(scast (b :: byte) :: int32) AND 0xff = ucast b"
  unfolding ff_mask
proof (rule bit_word_eqI)
  fix n assume "n < LENGTH(32)"
  consider "n < 7" | "n = 7" | "8 \<le> n" by linarith
  then show "bit ((scast b :: int32) AND mask 8) n = bit (ucast b :: int32) n"
    by cases (auto simp: bit_simps min_def dest: bit_imp_le_length)
qed

lemma byte_of_shifted:
  "k \<le> 24 \<Longrightarrow> (ucast (ucast (signed_drop_bit k (x :: int32) AND 0xff) :: byte) :: int32)
     = take_bit 8 (drop_bit k x)"
  unfolding ff_mask
  by (rule bit_word_eqI) (auto simp: bit_simps)

lemma assemble:
  fixes x :: int32
  shows "push_bit 24 (take_bit 8 (drop_bit 24 x)) OR push_bit 16 (take_bit 8 (drop_bit 16 x))
     OR push_bit 8 (take_bit 8 (drop_bit 8 x)) OR take_bit 8 x = x"
proof (rule bit_word_eqI)
  fix n assume "n < LENGTH(32)"
  then have n: "n < 32" by simp
  consider "n < 8" | "8 \<le> n" "n < 16" | "16 \<le> n" "n < 24" | "24 \<le> n" by linarith
  then show "bit (push_bit 24 (take_bit 8 (drop_bit 24 x)) OR push_bit 16 (take_bit 8 (drop_bit 16 x))
     OR push_bit 8 (take_bit 8 (drop_bit 8 x)) OR take_bit 8 x) n = bit x n"
    using n by cases (auto simp add: bit_simps)
qed

lemma int_of_buffer_of_int: "int_of_buffer (buffer_of_int x @ junk) = x"
proof -
  have "int_of_buffer (buffer_of_int x @ junk) =
      push_bit 24 (take_bit 8 (drop_bit 24 x)) OR push_bit 16 (take_bit 8 (drop_bit 16 x))
     OR push_bit 8 (take_bit 8 (drop_bit 8 x)) OR take_bit 8 (drop_bit 0 x)"
    unfolding int_of_buffer_def buffer_of_int_def
    using byte_of_shifted[of 0 x]
    by (simp add: scast_byte_masked byte_of_shifted del: signed_drop_bit_of_0 drop_bit_0)
  then show ?thesis by (simp add: assemble)
qed

lemma length_buffer_of_int [simp]: "length (buffer_of_int x) = 4"
  by (simp add: buffer_of_int_def)

lemma buffer_of_int_0: "buffer_of_int 0 = [0, 0, 0, 0]"
  by (simp add: buffer_of_int_def)

lemma chr_bytes:
  "(ucast (chr CHR ''A'') :: byte) = 0x41" "(ucast (chr CHR ''1'') :: byte) = 0x31"
  "(ucast (chr CHR ''0'') :: byte) = 0x30" "(ucast (chr CHR ''Q'') :: byte) = 0x51"
  by (simp_all add: chr_def)

subsection \<open>Writing\<close>


lemma write_loop_ok:
  "SendErr \<notin> set (outgoing s) \<Longrightarrow>
   sent (write_loop s bs) = sent s @ bs \<and> Socket.m_socket (write_loop s bs) = Socket.m_socket s
   \<and> incoming (write_loop s bs) = incoming s \<and> uninit (write_loop s bs) = uninit s
   \<and> SendErr \<notin> set (outgoing (write_loop s bs))"
proof (induction s bs rule: write_loop.induct)
  case (1 s bs)
  show ?case
  proof (cases "outgoing s")
    case Nil
    then show ?thesis using 1(2)
      by (subst write_loop.simps, simp add: send_def)+
  next
    case (Cons e es)
    with 1(2) obtain k where e: "e = Accept k" by (cases e) auto
    define n where "n = (if bs = [] then 0 else max 1 (min k (length bs)))"
    define s' where "s' = s\<lparr>outgoing := es, sent := sent s @ take n bs\<rparr>"
    have snd: "send s bs = (Some n, s')"
      by (simp add: send_def Cons e n_def s'_def Let_def)
    have es: "SendErr \<notin> set (outgoing s')" using 1(2) Cons by (simp add: s'_def)
    show ?thesis
    proof (cases "drop n bs = []")
      case True
      then have "write_loop s bs = s'" by (subst write_loop.simps) (simp add: snd)
      moreover from True have "take n bs = bs" by simp
      ultimately show ?thesis using es by (simp add: s'_def)
    next
      case False
      then have wl: "write_loop s bs = write_loop s' (drop n bs)"
        by (subst write_loop.simps) (simp add: snd)
      from 1(1)[OF snd[symmetric] refl False es]
      show ?thesis unfolding wl by (simp add: s'_def)
    qed
  qed
qed

lemma Socket_write_ok:
  assumes "sends_ok s"
  shows "sent (Socket_write s bs) = sent s @ bs" and "sends_ok (Socket_write s bs)"
    and "incoming (Socket_write s bs) = incoming s" and "uninit (Socket_write s bs) = uninit s"
    and "Socket.m_socket (Socket_write s bs) = Socket.m_socket s"
  using assms write_loop_ok[of s bs] by (simp_all add: Socket_write_def sends_ok_def)


subsection \<open>Reading\<close>

lemma length_poke: "pos \<le> length buffer \<Longrightarrow> length (poke buffer pos bs) = max (length buffer) (pos + length bs)"
  by (auto simp: poke_def)

lemma poke_poke:
  "pos \<le> length buffer \<Longrightarrow>
   poke (poke buffer pos xs) (pos + length xs) ys = poke buffer pos (xs @ ys)"
  by (simp add: poke_def ac_simps)

lemma read_loop_chunks:
  assumes "[] \<notin> set cs" and "incoming s = map Chunk cs @ rest" and "0 < len"
    and "len \<le> length (concat cs)" and "pos \<le> length buffer"
  shows "\<exists>cs'. read_loop s buffer pos len =
                 (poke buffer pos (take len (concat cs)), s\<lparr>incoming := map Chunk cs' @ rest\<rparr>)
               \<and> [] \<notin> set cs' \<and> concat cs' = drop len (concat cs)"
  using assms
proof (induction cs arbitrary: s buffer pos len)
  case Nil
  then show ?case by simp
next
  case (Cons c cs)
  from Cons.prems have c: "c \<noteq> []" and cs: "[] \<notin> set cs" by auto
  define s' where "s' = s\<lparr>incoming := (if length c \<le> len then map Chunk cs @ rest
                                        else Chunk (drop len c) # map Chunk cs @ rest)\<rparr>"
  have rcv: "recv s len = (Some (take len c), s')"
    using Cons.prems(2) by (simp add: recv_def s'_def)
  have ne: "take len c \<noteq> []" using c Cons.prems(3) by (cases c) auto
  show ?case
  proof (cases "length c < len")
    case True
    then have tk: "take len c = c" by simp
    have step: "read_loop s buffer pos len
                  = read_loop s' (poke buffer pos c) (pos + length c) (len - length c)"
      using True c by (subst read_loop.simps) (simp add: rcv tk)
    have inc': "incoming s' = map Chunk cs @ rest" using True by (simp add: s'_def)
    have len': "0 < len - length c" "len - length c \<le> length (concat cs)"
      using True Cons.prems(4) by auto
    have pos': "pos + length c \<le> length (poke buffer pos c)"
      using Cons.prems(5) by (simp add: length_poke)
    from Cons.IH[OF cs inc' len' pos'] obtain cs' where
      r: "read_loop s' (poke buffer pos c) (pos + length c) (len - length c) =
            (poke (poke buffer pos c) (pos + length c) (take (len - length c) (concat cs)),
             s'\<lparr>incoming := map Chunk cs' @ rest\<rparr>)"
      and cs': "[] \<notin> set cs'" "concat cs' = drop (len - length c) (concat cs)"
      by blast
    have "s'\<lparr>incoming := map Chunk cs' @ rest\<rparr> = s\<lparr>incoming := map Chunk cs' @ rest\<rparr>"
      by (simp add: s'_def)
    moreover have "poke (poke buffer pos c) (pos + length c) (take (len - length c) (concat cs))
                   = poke buffer pos (take len (concat (c # cs)))"
      using True Cons.prems(5) by (simp add: poke_poke)
    moreover have "concat cs' = drop len (concat (c # cs))" using True cs' by simp
    ultimately show ?thesis using step r cs'(1) by auto
  next
    case False
    then have fin: "read_loop s buffer pos len = (poke buffer pos (take len c), s')"
      using ne by (subst read_loop.simps) (simp add: rcv)
    define cs' where "cs' = (if length c \<le> len then cs else drop len c # cs)"
    have "s' = s\<lparr>incoming := map Chunk cs' @ rest\<rparr>" by (simp add: s'_def cs'_def)
    moreover have "[] \<notin> set cs'" using cs False by (auto simp: cs'_def)
    moreover have "concat cs' = drop len (concat (c # cs))" using False by (simp add: cs'_def)
    moreover have "take len (concat (c # cs)) = take len c" using False by simp
    ultimately show ?thesis using fin by metis
  qed
qed

lemma Socket_read_chunks:
  assumes "Socket.m_socket s \<noteq> 0" and "[] \<notin> set cs" and "incoming s = map Chunk cs @ rest"
    and "0 < len" and "len \<le> length (concat cs)" and "length buffer = len + extra"
  shows "\<exists>cs'. Socket_read s buffer len =
                 (take len (concat cs) @ drop len buffer, s\<lparr>incoming := map Chunk cs' @ rest\<rparr>)
               \<and> [] \<notin> set cs' \<and> concat cs' = drop len (concat cs)"
proof -
  from read_loop_chunks[OF assms(2,3,4,5), of 0 buffer] obtain cs' where
    r: "read_loop s buffer 0 len =
          (poke buffer 0 (take len (concat cs)), s\<lparr>incoming := map Chunk cs' @ rest\<rparr>)"
    and cs': "[] \<notin> set cs'" "concat cs' = drop len (concat cs)" by auto
  have "poke buffer 0 (take len (concat cs)) = take len (concat cs) @ drop len buffer"
    using assms(5) by (simp add: poke_def min_def)
  with r cs' assms(1) show ?thesis by (auto simp: Socket_read_def)
qed

lemma readInt_chunks:
  assumes "Socket.m_socket s \<noteq> 0" and "[] \<notin> set cs" and "incoming s = map Chunk cs @ rest"
    and "4 \<le> length (concat cs)"
  shows "\<exists>cs'. readInt s = (int_of_buffer (take 4 (concat cs)), s\<lparr>incoming := map Chunk cs' @ rest\<rparr>)
               \<and> [] \<notin> set cs' \<and> concat cs' = drop 4 (concat cs)"
proof -
  have lb: "length (local_buffer s 4) = 4 + 0" by (simp add: local_buffer_def)
  from Socket_read_chunks[OF assms(1,2,3) _ assms(4) lb] obtain cs' where
    r: "Socket_read s (local_buffer s 4) 4 =
          (take 4 (concat cs) @ drop 4 (local_buffer s 4), s\<lparr>incoming := map Chunk cs' @ rest\<rparr>)"
    and cs': "[] \<notin> set cs'" "concat cs' = drop 4 (concat cs)" by auto
  have "drop 4 (local_buffer s 4) = []" by (simp add: local_buffer_def)
  with r cs' assms(1) show ?thesis by (auto simp: readInt_def)
qed

subsection \<open>Strings\<close>

lemma sint_of_nat_small: "n < 2 ^ 31 \<Longrightarrow> sint (word_of_nat n :: int32) = int n"
  by (simp add: signed_of_nat signed_take_bit_int_eq_self)

lemma unat_of_nat_small: "n < 2 ^ 31 \<Longrightarrow> unat (word_of_nat n :: int32) = n"
  by (simp add: unat_of_nat)

lemma strlen_no_nul: "0 \<notin> set cs \<Longrightarrow> strlen cs = length cs"
  by (induction cs) (auto simp: strlen_def)

lemma c_str_terminated: "0 \<notin> set cs \<Longrightarrow> c_str (cs @ 0 # junk) = cs"
  by (induction cs) (auto simp: c_str_def)

lemma writeInt_ok:
  assumes "sends_ok s"
  shows "sent (writeInt x s) = sent s @ buffer_of_int x" and "sends_ok (writeInt x s)"
    and "incoming (writeInt x s) = incoming s" and "uninit (writeInt x s) = uninit s"
    and "Socket.m_socket (writeInt x s) = Socket.m_socket s"
  using Socket_write_ok[OF assms] by (simp_all add: writeInt_def)

lemma writeByte_ok:
  assumes "sends_ok s"
  shows "sent (writeByte b s) = sent s @ [ucast b]" and "sends_ok (writeByte b s)"
    and "incoming (writeByte b s) = incoming s" and "uninit (writeByte b s) = uninit s"
    and "Socket.m_socket (writeByte b s) = Socket.m_socket s"
  using Socket_write_ok[OF assms] by (simp_all add: writeByte_def)

lemma writeString_ok:
  assumes "sends_ok s" and "0 \<notin> set str" and "length str < 2 ^ 31"
  shows "sent (writeString str s) = sent s @ buffer_of_int (word_of_nat (length str)) @ str"
    and "sends_ok (writeString str s)"
    and "incoming (writeString str s) = incoming s" and "uninit (writeString str s) = uninit s"
    and "Socket.m_socket (writeString str s) = Socket.m_socket s"
  using Socket_write_ok[OF writeInt_ok(2)[OF assms(1)]] writeInt_ok[OF assms(1)] assms(2,3)
  by (simp_all add: writeString_def Let_def strlen_no_nul sint_of_nat_small)

lemma readString_unfold_pos:
  "Socket.m_socket s \<noteq> 0 \<Longrightarrow> readInt s = (len, s1) \<Longrightarrow> \<not> sint len < 0 \<Longrightarrow> len \<noteq> 0 \<Longrightarrow>
   Socket_read s1 (local_buffer s1 (unat len + 1)) (unat len) = (b, s2) \<Longrightarrow>
   readString s = (c_str (b[unat len := 0]), s2)"
  by (simp add: readString_def)

lemma readString_unfold_zero:
  "Socket.m_socket s \<noteq> 0 \<Longrightarrow> readInt s = (0, s1) \<Longrightarrow> readString s = ([], s1)"
  by (simp add: readString_def local_buffer_def c_str_def)

lemma readString_chunks:
  assumes alive: "Socket.m_socket s \<noteq> 0" and cs: "[] \<notin> set cs"
    and inc: "incoming s = map Chunk cs @ rest"
    and bytes: "concat cs = buffer_of_int (word_of_nat (length str)) @ str @ after"
    and str: "0 \<notin> set str" "length str < 2 ^ 31"
  shows "\<exists>cs'. readString s = (str, s\<lparr>incoming := map Chunk cs' @ rest\<rparr>)
               \<and> [] \<notin> set cs' \<and> concat cs' = after"
proof -
  define n where "n = length str"
  define len :: int32 where "len = word_of_nat n"
  have four: "4 \<le> length (concat cs)" by (simp add: bytes)
  from readInt_chunks[OF alive cs inc four] obtain cs1 where
    ri: "readInt s = (int_of_buffer (take 4 (concat cs)), s\<lparr>incoming := map Chunk cs1 @ rest\<rparr>)"
    and cs1: "[] \<notin> set cs1" "concat cs1 = drop 4 (concat cs)" by blast
  have "take 4 (concat cs) = buffer_of_int len" by (simp add: bytes n_def len_def)
  then have len0: "int_of_buffer (take 4 (concat cs)) = len"
    using int_of_buffer_of_int[of len "[]"] by simp
  define s1 where "s1 = s\<lparr>incoming := map Chunk cs1 @ rest\<rparr>"
  have ri': "readInt s = (len, s1)" using ri len0 by (simp add: s1_def)
  have rest1: "concat cs1 = str @ after" using cs1(2) by (simp add: bytes)
  have nn: "\<not> sint len < 0" using str(2) by (simp add: sint_of_nat_small n_def len_def)
  have un: "unat len = n" using str(2) by (simp add: unat_of_nat_small n_def len_def)
  show ?thesis
  proof (cases "n = 0")
    case True
    then have "str = []" "len = 0" by (simp_all add: n_def len_def)
    with readString_unfold_zero[OF alive, of s1] ri'
    have "readString s = (str, s\<lparr>incoming := map Chunk cs1 @ rest\<rparr>)" by (simp add: s1_def)
    moreover have "concat cs1 = after" using rest1 \<open>str = []\<close> by simp
    ultimately show ?thesis using cs1(1) by blast
  next
    case False
    then have lz: "len \<noteq> 0" using un by auto
    have alive1: "Socket.m_socket s1 \<noteq> 0" using alive by (simp add: s1_def)
    have inc1: "incoming s1 = map Chunk cs1 @ rest" by (simp add: s1_def)
    have le: "n \<le> length (concat cs1)" by (simp add: rest1 n_def)
    have lb: "length (local_buffer s1 (n + 1)) = n + 1" by (simp add: local_buffer_def)
    from Socket_read_chunks[OF alive1 cs1(1) inc1 _ le lb] False obtain cs2 where
      rd: "Socket_read s1 (local_buffer s1 (n + 1)) n =
             (take n (concat cs1) @ drop n (local_buffer s1 (n + 1)),
              s1\<lparr>incoming := map Chunk cs2 @ rest\<rparr>)"
      and cs2: "[] \<notin> set cs2" "concat cs2 = drop n (concat cs1)" by auto
    have tk: "take n (concat cs1) = str" by (simp add: rest1 n_def)
    define j where "j = uninit s1 n"
    have "[0..<n + 1] = [0..<n] @ [n]" by simp
    then have j: "drop n (local_buffer s1 (n + 1)) = [j]"
      unfolding local_buffer_def j_def by (simp only: map_append drop_append) simp
    have buf: "take n (concat cs1) @ drop n (local_buffer s1 (n + 1)) = str @ [j]"
      by (simp only: tk j)
    have "(str @ [j])[n := 0] = str @ [0]" by (simp add: n_def)
    then have res: "c_str ((take n (concat cs1) @ drop n (local_buffer s1 (n + 1)))[n := 0]) = str"
      using c_str_terminated[OF str(1), of "[]"] by (simp only: buf)
    have s2: "s1\<lparr>incoming := map Chunk cs2 @ rest\<rparr> = s\<lparr>incoming := map Chunk cs2 @ rest\<rparr>"
      by (simp add: s1_def)
    from rd have rd': "Socket_read s1 (local_buffer s1 (unat len + 1)) (unat len) =
             (take n (concat cs1) @ drop n (local_buffer s1 (n + 1)),
              s1\<lparr>incoming := map Chunk cs2 @ rest\<rparr>)" by (simp only: un)
    have "readString s = (str, s\<lparr>incoming := map Chunk cs2 @ rest\<rparr>)"
      using readString_unfold_pos[OF alive ri' nn lz rd'] by (simp only: un res s2)
    moreover have "concat cs2 = after" using cs2(2) by (simp add: rest1 n_def)
    ultimately show ?thesis using cs2(1) by blast
  qed
qed

lemma concat_empty_no_nil: "[] \<notin> set cs \<Longrightarrow> concat cs = [] \<Longrightarrow> cs = []"
  by (cases cs) auto

text \<open>
  Claim C1. On a live stream \<open>writeInt\<close> sends the four bytes of the \<open>int\<close>, the most
  significant first, and \<open>writeString\<close> sends the length of the string as an \<open>int\<close>
  followed by its bytes (a C string of fewer than \<open>2^31\<close> bytes, the empty one
  included). They are read back by \<open>readInt\<close> and \<open>readString\<close>: whenever the bytes
  that the writer sent are what the reader's stream delivers, in whatever chunks \<open>cs\<close>,
  the reader returns the value written and has consumed exactly those bytes.
\<close>

theorem codec_round_trip:
  assumes w: "sends_ok w"
    and r: "Socket.m_socket r \<noteq> 0" "[] \<notin> set cs" "incoming r = map Chunk cs @ rest"
    and str: "0 \<notin> set str" "length str < 2 ^ 31"
  shows "sent (writeInt x w) = sent w @ buffer_of_int x
       \<and> sent (writeString str w) = sent w @ buffer_of_int (word_of_nat (length str)) @ str
       \<and> (sent (writeInt x w) = sent w @ concat cs \<longrightarrow> readInt r = (x, r\<lparr>incoming := rest\<rparr>))
       \<and> (sent (writeString str w) = sent w @ concat cs
            \<longrightarrow> readString r = (str, r\<lparr>incoming := rest\<rparr>))"
proof (intro conjI impI)
  show "sent (writeInt x w) = sent w @ buffer_of_int x" by (rule writeInt_ok(1)[OF w])
  show "sent (writeString str w) = sent w @ buffer_of_int (word_of_nat (length str)) @ str"
    by (rule writeString_ok(1)[OF w str])
next
  assume "sent (writeInt x w) = sent w @ concat cs"
  then have bytes: "concat cs = buffer_of_int x" using writeInt_ok(1)[OF w, of x] by simp
  then have "4 \<le> length (concat cs)" by simp
  from readInt_chunks[OF r this] obtain cs' where
    ri: "readInt r = (int_of_buffer (take 4 (concat cs)), r\<lparr>incoming := map Chunk cs' @ rest\<rparr>)"
    and cs': "[] \<notin> set cs'" "concat cs' = drop 4 (concat cs)" by blast
  from cs' bytes have "cs' = []" by (simp add: concat_empty_no_nil)
  moreover have "int_of_buffer (take 4 (concat cs)) = x"
    using int_of_buffer_of_int[of x "[]"] by (simp add: bytes)
  ultimately show "readInt r = (x, r\<lparr>incoming := rest\<rparr>)" using ri by simp
next
  assume "sent (writeString str w) = sent w @ concat cs"
  then have bytes: "concat cs = buffer_of_int (word_of_nat (length str)) @ str @ []"
    using writeString_ok(1)[OF w str] by simp
  from readString_chunks[OF r bytes str] obtain cs' where
    rs: "readString r = (str, r\<lparr>incoming := map Chunk cs' @ rest\<rparr>)"
    and cs': "[] \<notin> set cs'" "concat cs' = []" by blast
  from cs' have "cs' = []" by (simp add: concat_empty_no_nil)
  with rs show "readString r = (str, r\<lparr>incoming := rest\<rparr>)" by simp
qed


theorem codec_round_trip_witness:
  "sends_ok (wit_sock [] [Accept 1, Accept 2])
   \<and> Socket.m_socket (wit_sock [Chunk [0x80, 0xFF], Chunk [0x01, 0x7F]] []) \<noteq> 0
   \<and> sent (writeInt 0x80FF017F (wit_sock [] [Accept 1, Accept 2]))
       = sent (wit_sock [] [Accept 1, Accept 2]) @ concat [[0x80, 0xFF], [0x01, 0x7F]]
   \<and> readInt (wit_sock [Chunk [0x80, 0xFF], Chunk [0x01, 0x7F]] [])
       = (0x80FF017F, wit_sock [] [])
   \<and> 0 \<notin> set (cstr ''Ada'') \<and> length (cstr ''Ada'') < 2 ^ 31
   \<and> sent (writeString (cstr ''Ada'') (wit_sock [] [Accept 1, Accept 2]))
       = sent (wit_sock [] [Accept 1, Accept 2]) @ concat [[0, 0, 0], [3, 0x41, 0x64], [0x61]]
   \<and> readString (wit_sock [Chunk [0, 0, 0], Chunk [3, 0x41, 0x64], Chunk [0x61]] [])
       = (cstr ''Ada'', wit_sock [] [])"
proof -
  let ?w = "wit_sock [] [Accept 1, Accept 2]"
  let ?r1 = "wit_sock [Chunk [0x80, 0xFF], Chunk [0x01, 0x7F]] []"
  let ?r2 = "wit_sock [Chunk [0, 0, 0], Chunk [3, 0x41, 0x64], Chunk [0x61]] []"
  have w: "sends_ok ?w" by (simp add: sends_ok_def wit_sock_def)
  have r1: "Socket.m_socket ?r1 \<noteq> 0" "[] \<notin> set [[0x80, 0xFF], [0x01, 0x7F :: byte]]"
    "incoming ?r1 = map Chunk [[0x80, 0xFF], [0x01, 0x7F]] @ []"
    by (simp_all add: wit_sock_def)
  have r2: "Socket.m_socket ?r2 \<noteq> 0" "[] \<notin> set [[0, 0, 0], [3, 0x41, 0x64], [0x61 :: byte]]"
    "incoming ?r2 = map Chunk [[0, 0, 0], [3, 0x41, 0x64], [0x61]] @ []"
    by (simp_all add: wit_sock_def)
  have str: "0 \<notin> set (cstr ''Ada'')" "length (cstr ''Ada'') < 2 ^ 31"
    by (simp_all add: cstr_def)
  have e1: "sent (writeInt 0x80FF017F ?w) = sent ?w @ concat [[0x80, 0xFF], [0x01, 0x7F]]"
    by (simp add: writeInt_def buffer_of_int_def wit_sock_def Socket_write_def send_def Let_def)
  have e2: "sent (writeString (cstr ''Ada'') ?w)
              = sent ?w @ concat [[0, 0, 0], [3, 0x41, 0x64], [0x61]]"
    by (simp add: writeString_def writeInt_def buffer_of_int_def wit_sock_def Socket_write_def
        send_def Let_def cstr_def strlen_def)
  have u1: "?r1\<lparr>incoming := []\<rparr> = wit_sock [] []" and u2: "?r2\<lparr>incoming := []\<rparr> = wit_sock [] []"
    by (simp_all add: wit_sock_def)
  from codec_round_trip[OF w r1 str, of "0x80FF017F"] e1 u1
  have a: "readInt ?r1 = (0x80FF017F, wit_sock [] [])" by simp
  from codec_round_trip[OF w r2 str, of "0x80FF017F"] e2 u2
  have b: "readString ?r2 = (cstr ''Ada'', wit_sock [] [])" by simp
  from w r1(1) e1 a str e2 b show ?thesis by blast
qed


subsection \<open>A decode over a stream that fails\<close>

text \<open>
  A decode on a dead session returns its sentinel, and \<open>Socket::read\<close> either stores
  the whole count or leaves the session dead.
\<close>

lemma dead_session_decodes:
  assumes "Socket.m_socket s = 0"
  shows "readByte s = (- 1, s)" and "readInt s = (- 1, s)" and "readString s = ([], s)"
    and "readBool s = (False, s)"
  using assms by (simp_all add: readByte_def readInt_def readString_def readBool_def)

lemma recv_handle: "recv s n = (r, s') \<Longrightarrow> Socket.m_socket s' = Socket.m_socket s"
  by (auto simp: recv_def split: list.splits recv_event.splits)

lemma read_loop_all_or_dead:
  assumes "0 < len" and "pos \<le> length buffer"
  shows "Socket.m_socket (snd (read_loop s buffer pos len)) = 0
         \<or> (Socket.m_socket (snd (read_loop s buffer pos len)) = Socket.m_socket s
            \<and> (\<exists>bs. length bs = len \<and> fst (read_loop s buffer pos len) = poke buffer pos bs))"
  using assms
proof (induction s buffer pos len rule: read_loop.induct)
  case (1 s buffer pos len)
  obtain r s' where rc: "recv s len = (r, s')" by (cases "recv s len")
  then have h: "Socket.m_socket s' = Socket.m_socket s" by (rule recv_handle)
  show ?case
  proof (cases r)
    case None
    then show ?thesis using rc by (subst (1 2 3) read_loop.simps) (simp add: setError_def)
  next
    case (Some bs)
    have le: "length bs \<le> len" using rc Some
      by (auto simp: recv_def split: list.splits recv_event.splits)
    show ?thesis
    proof (cases "bs = []")
      case True
      then show ?thesis using rc Some by (subst (1 2 3) read_loop.simps) (simp add: setError_def)
    next
      case False
      show ?thesis
      proof (cases "0 < len - length bs")
        case True
        have step: "read_loop s buffer pos len
                  = read_loop s' (poke buffer pos bs) (pos + length bs) (len - length bs)"
          using rc Some False True by (subst read_loop.simps) simp
        have pos': "pos + length bs \<le> length (poke buffer pos bs)"
          using "1.prems"(2) by (simp add: length_poke)
        from "1.IH"[OF rc[symmetric] Some False True True pos']
        show ?thesis
        proof
          assume "Socket.m_socket (snd (read_loop s' (poke buffer pos bs) (pos + length bs)
                     (len - length bs))) = 0"
          then show ?thesis by (simp only: step) simp
        next
          assume "Socket.m_socket (snd (read_loop s' (poke buffer pos bs) (pos + length bs)
                     (len - length bs))) = Socket.m_socket s'
                \<and> (\<exists>cs. length cs = len - length bs
                      \<and> fst (read_loop s' (poke buffer pos bs) (pos + length bs) (len - length bs))
                          = poke (poke buffer pos bs) (pos + length bs) cs)"
          then obtain cs where a: "Socket.m_socket (snd (read_loop s' (poke buffer pos bs)
                     (pos + length bs) (len - length bs))) = Socket.m_socket s'"
            and b: "length cs = len - length bs"
            and c: "fst (read_loop s' (poke buffer pos bs) (pos + length bs) (len - length bs))
                          = poke (poke buffer pos bs) (pos + length bs) cs" by blast
          have "poke (poke buffer pos bs) (pos + length bs) cs = poke buffer pos (bs @ cs)"
            using "1.prems"(2) by (rule poke_poke)
          moreover have "length (bs @ cs) = len" using b le by simp
          ultimately have "\<exists>ds. length ds = len
                            \<and> fst (read_loop s buffer pos len) = poke buffer pos ds"
            using c by (simp only: step) blast
          with a h show ?thesis by (simp only: step) simp
        qed
      next
        case F2: False
        then have fin: "read_loop s buffer pos len = (poke buffer pos bs, s')"
          using rc Some False by (subst read_loop.simps) simp
        from F2 le have "length bs = len" by simp
        with fin h show ?thesis by auto
      qed
    qed
  qed
qed

lemma Socket_read_all_or_dead:
  assumes "0 < len" and "Socket.m_socket s \<noteq> 0"
  shows "Socket.m_socket (snd (Socket_read s buffer len)) = 0
         \<or> (Socket.m_socket (snd (Socket_read s buffer len)) = Socket.m_socket s
            \<and> (\<exists>bs. length bs = len \<and> fst (Socket_read s buffer len) = poke buffer 0 bs))"
  using read_loop_all_or_dead[OF assms(1), of 0 buffer s] assms(2)
  by (simp add: Socket_read_def del: read_loop.simps)

text \<open>
  Claim C5. The claim is that a decode during which the stream closes fails rather than
  returning a value assembled from partially read data. \<open>Socket::read\<close> does mark the
  session dead, but \<open>readInt\<close> and \<open>readString\<close> then go on to use their buffer. Here
  the stream closes after two of the four bytes of an \<open>int\<close>, and after the first of the
  three bytes of a string: \<open>readInt\<close> returns \<open>0x1234CCCC\<close>, the two bytes received
  followed by two bytes of uninitialised stack, and \<open>readString\<close> returns the byte received
  followed by two bytes of uninitialised stack.
\<close>

theorem decode_returns_partial_data:
  "fst (readInt (wit_sock [Chunk [0x12, 0x34]] [])) = 0x1234CCCC
   \<and> Socket.m_socket (snd (readInt (wit_sock [Chunk [0x12, 0x34]] []))) = 0
   \<and> fst (readString (wit_sock [Chunk [0, 0, 0, 3, 0x41]] [])) = [0x41, 0xCC, 0xCC]
   \<and> Socket.m_socket (snd (readString (wit_sock [Chunk [0, 0, 0, 3, 0x41]] []))) = 0"
  by code_simp

section \<open>Properties of the fetch direction\<close>

lemma load32_store_bytes:
  "load32 (store_bytes m a [b0, b1, b2, b3]) a =
     ucast b0 OR push_bit 8 (ucast b1) OR push_bit 16 (ucast b2) OR push_bit 24 (ucast b3)"
  by (simp add: load32_def store_bytes_def)

lemma byte_of_dropped:
  "(ucast (ucast (drop_bit k (v :: int32)) :: byte) :: int32) = take_bit 8 (drop_bit k v)"
  by (rule bit_word_eqI) (auto simp: bit_simps)

lemma byte_of_low: "(ucast (ucast (v :: int32) :: byte) :: int32) = take_bit 8 v"
  by (rule bit_word_eqI) (auto simp: bit_simps)

lemma assemble_le:
  fixes x :: int32
  shows "take_bit 8 x OR push_bit 8 (take_bit 8 (drop_bit 8 x))
         OR push_bit 16 (take_bit 8 (drop_bit 16 x)) OR push_bit 24 (take_bit 8 (drop_bit 24 x)) = x"
proof (rule bit_word_eqI)
  fix n assume "n < LENGTH(32)"
  then have n: "n < 32" by simp
  consider "n < 8" | "8 \<le> n" "n < 16" | "16 \<le> n" "n < 24" | "24 \<le> n" by linarith
  then show "bit (take_bit 8 x OR push_bit 8 (take_bit 8 (drop_bit 8 x))
         OR push_bit 16 (take_bit 8 (drop_bit 16 x)) OR push_bit 24 (take_bit 8 (drop_bit 24 x))) n
       = bit x n"
    using n by cases (auto simp add: bit_simps)
qed

lemma load32_store32: "load32 (store32 m a v) a = v"
  unfolding store32_def load32_store_bytes
  by (simp only: byte_of_dropped byte_of_low assemble_le)

lemma store32_frame: "a' < a \<or> a + 4 \<le> a' \<Longrightarrow> store32 m a v a' = m a'"
  by (auto simp: store32_def store_bytes_def)

lemma load_bytes_cong: "(\<And>a. p \<le> a \<Longrightarrow> a < p + n \<Longrightarrow> m' a = m a) \<Longrightarrow> load_bytes m' p n = load_bytes m p n"
  by (simp add: load_bytes_def)

text \<open>
  Claim C7. When the implementation record has the was-null flag set, \<open>copyData\<close> stores
  \<open>SQL_NULL_DATA\<close> in the bound indicator (if one is bound) and changes no byte of memory
  outside the four bytes of the indicator, whatever the declared target type: a bound
  data buffer that does not overlap the indicator is unchanged byte for byte.
\<close>

theorem null_propagation:
  assumes "m_wasNull ir"
  shows "\<exists>m'. copyData m ir ar = Some m'
           \<and> (m_statusPointer ar \<noteq> 0 \<longrightarrow> load32 m' (m_statusPointer ar) = SQL_NULL_DATA)
           \<and> (m_statusPointer ar = 0 \<longrightarrow> m' = m)
           \<and> (\<forall>a. a < m_statusPointer ar \<or> m_statusPointer ar + 4 \<le> a \<longrightarrow> m' a = m a)
           \<and> (m_pointer ar + n \<le> m_statusPointer ar \<or> m_statusPointer ar + 4 \<le> m_pointer ar
                \<longrightarrow> load_bytes m' (m_pointer ar) n = load_bytes m (m_pointer ar) n)"
proof -
  let ?sp = "m_statusPointer ar"
  have cd: "copyData m ir ar = Some (setNull m ar)" using assms by (simp add: copyData_def)
  have a: "?sp \<noteq> 0 \<longrightarrow> load32 (setNull m ar) ?sp = SQL_NULL_DATA"
    using load32_store32[of m ?sp SQL_NULL_DATA] by (simp add: setNull_def)
  have b: "?sp = 0 \<longrightarrow> setNull m ar = m" by (simp add: setNull_def)
  have c: "setNull m ar a = m a" if "a < ?sp \<or> ?sp + 4 \<le> a" for a
    using store32_frame[OF that, of m SQL_NULL_DATA] by (simp add: setNull_def)
  have d: "load_bytes (setNull m ar) (m_pointer ar) n = load_bytes m (m_pointer ar) n"
    if dis: "m_pointer ar + n \<le> ?sp \<or> ?sp + 4 \<le> m_pointer ar"
  proof (rule load_bytes_cong)
    fix a assume "m_pointer ar \<le> a" "a < m_pointer ar + n"
    with dis have "a < ?sp \<or> ?sp + 4 \<le> a" by linarith
    then show "setNull m ar a = m a" by (rule c)
  qed
  show ?thesis
    unfolding cd using a b c d by (intro exI[of _ "setNull m ar"] conjI allI impI) simp_all
qed

theorem null_propagation_witness:
  "m_wasNull ex_null
   \<and> (\<exists>m'. copyData ex_mem ex_null ex_char3 = Some m'
          \<and> load32 m' 200 = SQL_NULL_DATA
          \<and> load_bytes m' 100 3 = load_bytes ex_mem 100 3)"
proof -
  have w: "m_wasNull ex_null" by (simp add: ex_null_def)
  have p: "m_statusPointer ex_char3 = 200" "m_pointer ex_char3 = 100"
    by (simp_all add: ex_char3_def new_DescriptorRecord_def)
  from null_propagation[OF w, of ex_mem ex_char3 3] w show ?thesis
    unfolding p by auto
qed

text \<open>
  What \<open>returnString\<close> does with a text longer than the capacity, in general: it copies
  as many bytes as the capacity, writes the terminator after them, and stores the
  capacity in the indicator.
\<close>

lemma c_str_take_strlen: "n \<le> strlen s \<Longrightarrow> c_str (take n s) = take n s"
  unfolding c_str_def strlen_def
proof (induction s arbitrary: n)
  case Nil
  then show ?case by simp
next
  case (Cons a s)
  then show ?case by (cases n) (auto split: if_splits)
qed

lemma strlen_le_length: "strlen s \<le> length s"
  by (simp add: strlen_def length_takeWhile_le)

lemma load_bytes_store_bytes: "load_bytes (store_bytes m a bs) a (length bs) = bs"
  by (auto simp: load_bytes_def store_bytes_def intro!: nth_equalityI)

lemma load32_frame:
  "(\<And>a. p \<le> a \<Longrightarrow> a < p + 4 \<Longrightarrow> m' a = m a) \<Longrightarrow> load32 m' p = load32 m p"
  by (simp add: load32_def)

lemma returnString_truncation:
  assumes cap: "0 < sint cap" and long: "sint cap < int (strlen s)" and fits: "strlen s < 2 ^ 31"
    and dest: "dest \<noteq> 0" and pt: "pt \<noteq> 0"
    and apart: "pt + 4 \<le> dest \<or> dest + nat (sint cap) < pt"
  shows "\<exists>m'. returnString m dest cap pt (Some s) = Some m'
           \<and> load_bytes m' dest (nat (sint cap)) = take (nat (sint cap)) s
           \<and> m' (dest + nat (sint cap)) = 0
           \<and> load32 m' pt = cap"
proof -
  define n where "n = nat (sint cap)"
  have n: "n < strlen s" "int n = sint cap" using cap long by (simp_all add: n_def)
  have len0: "sint (word_of_nat (strlen s) :: int32) = int (strlen s)"
    using fits by (rule sint_of_nat_small)
  have cz: "cap \<noteq> 0" using cap by auto
  define m1 where "m1 = store32 m pt cap"
  define m' where "m' = (store_bytes m1 dest (strncpy s n))(dest + n := 0)"
  have nl: "n \<le> length s" using n(1) strlen_le_length[of s] by linarith
  then have ln: "length (take n s) = n" by simp
  have cpy: "strncpy s n = take n s"
    using n(1) nl by (simp add: strncpy_def Let_def c_str_take_strlen)
  have r: "returnString m dest cap pt (Some s) = Some m'"
    using cap long dest pt cz
    by (simp add: returnString_def Let_def len0 m'_def m1_def n_def)
  have "load_bytes m' dest n = load_bytes (store_bytes m1 dest (take n s)) dest n"
    by (rule load_bytes_cong) (simp add: m'_def cpy)
  then have a: "load_bytes m' dest n = take n s"
    using load_bytes_store_bytes[of m1 dest "take n s"] by (simp only: ln)
  have b: "m' (dest + n) = 0" by (simp add: m'_def)
  have "load32 m' pt = load32 m1 pt"
  proof (rule load32_frame)
    fix a assume "pt \<le> a" "a < pt + 4"
    with apart have "a < dest \<or> dest + n < a" by (auto simp: n_def)
    then show "m' a = m1 a" by (auto simp: m'_def store_bytes_def cpy ln)
  qed
  then have c: "load32 m' pt = cap" by (simp add: m1_def load32_store32)
  from r a b c show ?thesis unfolding n_def by blast
qed

text \<open>
  Claim C2. The claim is that a text value longer than the capacity of its buffer is
  copied as capacity-1 bytes and a terminator, and that the indicator receives the
  untruncated length. \<open>returnString\<close> clamps the length to the capacity, not to the
  capacity less one, stores the clamped length, and puts the terminator after the copy.
  For \<open>Hello\<close> and a buffer of 3 bytes at address 100: the three bytes of the buffer
  receive \<open>Hel\<close>, the terminator is written at address 103, outside the buffer, where
  the memory held \<open>0xAA\<close>, and the indicator receives 3.
\<close>

theorem copyData_overruns_capacity:
  "ex_copied \<noteq> None
   \<and> load_bytes (the ex_copied) 100 4 = [0x48, 0x65, 0x6C, 0]
   \<and> load_bytes ex_mem 100 4 = [0xAA, 0xAA, 0xAA, 0xAA]
   \<and> load32 (the ex_copied) 200 = 3"
  by code_simp

section \<open>Properties of the parameter direction\<close>

text \<open>
  Claim C8, as amended. When the indicator of a parameter holds the null sentinel,
  \<open>sendParameterValue\<close> writes the \<open>int\<close> 0 and nothing else. For a declared C type
  other than short integer, long integer and character buffer (the data pointer bound,
  the indicator not the null sentinel) it writes nothing at all and raises no error: it
  returns the session exactly as it was.
\<close>

theorem sendParameterValue_null_or_unsupported:
  "(m_statusPointer r \<noteq> 0 \<and> load32 m (m_statusPointer r) = SQL_NULL_DATA \<and> sends_ok s
      \<longrightarrow> sent (sendParameterValue m r s) = sent s @ [0, 0, 0, 0])
   \<and> ((m_statusPointer r = 0 \<or> load32 m (m_statusPointer r) \<noteq> SQL_NULL_DATA)
       \<and> m_pointer r \<noteq> 0 \<and> m_cDataType r \<noteq> SQL_C_SHORT \<and> m_cDataType r \<noteq> SQL_C_LONG
       \<and> m_cDataType r \<noteq> SQL_C_CHAR
      \<longrightarrow> sendParameterValue m r s = s)"
proof (intro conjI impI)
  assume "m_statusPointer r \<noteq> 0 \<and> load32 m (m_statusPointer r) = SQL_NULL_DATA \<and> sends_ok s"
  then show "sent (sendParameterValue m r s) = sent s @ [0, 0, 0, 0]"
    by (simp add: sendParameterValue_def writeInt_ok buffer_of_int_0)
next
  assume "(m_statusPointer r = 0 \<or> load32 m (m_statusPointer r) \<noteq> SQL_NULL_DATA)
       \<and> m_pointer r \<noteq> 0 \<and> m_cDataType r \<noteq> SQL_C_SHORT \<and> m_cDataType r \<noteq> SQL_C_LONG
       \<and> m_cDataType r \<noteq> SQL_C_CHAR"
  then show "sendParameterValue m r s = s"
    by (auto simp: sendParameterValue_def Let_def)
qed

theorem sendParameterValue_null_or_unsupported_witness:
  "m_statusPointer ex_null_param \<noteq> 0
   \<and> load32 (store32 ex_mem 200 SQL_NULL_DATA) (m_statusPointer ex_null_param) = SQL_NULL_DATA
   \<and> sends_ok (wit_sock [] [])
   \<and> sent (sendParameterValue (store32 ex_mem 200 SQL_NULL_DATA) ex_null_param (wit_sock [] []))
       = [0, 0, 0, 0]
   \<and> m_statusPointer ex_double_param = 0 \<and> m_pointer ex_double_param \<noteq> 0
   \<and> m_cDataType ex_double_param \<noteq> SQL_C_SHORT \<and> m_cDataType ex_double_param \<noteq> SQL_C_LONG
   \<and> m_cDataType ex_double_param \<noteq> SQL_C_CHAR
   \<and> sendParameterValue ex_mem ex_double_param (wit_sock [] []) = wit_sock [] []"
proof -
  have n: "m_statusPointer ex_null_param \<noteq> 0" "m_statusPointer ex_null_param = 200"
    by (simp_all add: ex_null_param_def new_DescriptorRecord_def)
  have l: "load32 (store32 ex_mem 200 SQL_NULL_DATA) (m_statusPointer ex_null_param) = SQL_NULL_DATA"
    by (simp add: n load32_store32)
  have ok: "sends_ok (wit_sock [] [])" and se: "sent (wit_sock [] []) = []"
    by (simp_all add: sends_ok_def wit_sock_def)
  have d: "m_statusPointer ex_double_param = 0" "m_pointer ex_double_param \<noteq> 0"
    "m_cDataType ex_double_param \<noteq> SQL_C_SHORT" "m_cDataType ex_double_param \<noteq> SQL_C_LONG"
    "m_cDataType ex_double_param \<noteq> SQL_C_CHAR"
    by (simp_all add: ex_double_param_def new_DescriptorRecord_def SQL_C_DOUBLE_def SQL_C_SHORT_def
        SQL_C_LONG_def SQL_C_CHAR_def)
  from sendParameterValue_null_or_unsupported
         [of ex_null_param "store32 ex_mem 200 SQL_NULL_DATA" "wit_sock [] []"] n(1) l ok se
  have a: "sent (sendParameterValue (store32 ex_mem 200 SQL_NULL_DATA) ex_null_param (wit_sock [] []))
       = [0, 0, 0, 0]" by simp
  from sendParameterValue_null_or_unsupported[of ex_double_param ex_mem "wit_sock [] []"] d
  have b: "sendParameterValue ex_mem ex_double_param (wit_sock [] []) = wit_sock [] []" by simp
  from n(1) l ok a d b show ?thesis by blast
qed

text \<open>
  The claim as stated fails: with one parameter bound as \<open>SQL_C_DOUBLE\<close>,
  \<open>executePrepared\<close> sends the block \<open>'1'\<close> and ordinal 0 with no value after it, then
  \<open>'0'\<close>, and reports success with no diagnostic.
\<close>

theorem unsupported_type_raises_nothing:
  "m_cDataType ex_double_param = SQL_C_DOUBLE
   \<and> ex_unsupported \<noteq> None
   \<and> fst (the ex_unsupported) = True
   \<and> Statement.m_error (fst (snd (the ex_unsupported))) = None
   \<and> m_updateCount (fst (snd (the ex_unsupported))) = 1
   \<and> sent (snd (snd (the ex_unsupported))) = [0x51, 0, 0, 0, 5, 0x31, 0, 0, 0, 0, 0x30]"
  by code_simp


section \<open>Properties of statements\<close>

subsection \<open>Reading sends nothing\<close>

lemma recv_sent: "recv s n = (r, s') \<Longrightarrow> sent s' = sent s"
  by (auto simp: recv_def split: list.splits recv_event.splits)

lemma read_loop_sent: "sent (snd (read_loop s buffer pos len)) = sent s"
proof (induction s buffer pos len rule: read_loop.induct)
  case (1 s buffer pos len)
  obtain r s' where rc: "recv s len = (r, s')" by (cases "recv s len")
  then have s': "sent s' = sent s" by (rule recv_sent)
  show ?case
  proof (cases r)
    case None
    then show ?thesis using rc s' by (subst read_loop.simps) (simp add: setError_def)
  next
    case (Some bs)
    show ?thesis
    proof (cases "bs \<noteq> [] \<and> len - length bs > 0")
      case True
      then have "read_loop s buffer pos len
                  = read_loop s' (poke buffer pos bs) (pos + length bs) (len - length bs)"
        using rc Some by (subst read_loop.simps) simp
      moreover have "sent (snd (read_loop s' (poke buffer pos bs) (pos + length bs) (len - length bs)))
                      = sent s'"
        using 1[OF rc[symmetric] Some] True by simp
      ultimately show ?thesis using s' by simp
    next
      case False
      then show ?thesis using rc Some s'
        by (subst read_loop.simps) (auto simp: setError_def)
    qed
  qed
qed

lemma Socket_read_sent: "sent (snd (Socket_read s buffer len)) = sent s"
  by (simp add: Socket_read_def read_loop_sent del: read_loop.simps)


lemma readInt_sent: "sent (snd (readInt s)) = sent s"
  using Socket_read_sent[of s "local_buffer s 4" 4]
  by (auto simp: readInt_def split: prod.splits)

lemma readString_sent: "sent (snd (readString s)) = sent s"
proof (cases "Socket.m_socket s = 0")
  case True
  then show ?thesis by (simp add: readString_def)
next
  case False
  obtain len0 s1 where ri: "readInt s = (len0, s1)" by (cases "readInt s")
  then have s1: "sent s1 = sent s" using readInt_sent[of s] by simp
  define len where "len = (if sint len0 < 0 then 0 else len0)"
  obtain b s2 where rd: "Socket_read s1 (local_buffer s1 (unat len + 1)) (unat len) = (b, s2)"
    by (cases "Socket_read s1 (local_buffer s1 (unat len + 1)) (unat len)")
  then have "sent s2 = sent s1"
    using Socket_read_sent[of s1 "local_buffer s1 (unat len + 1)" "unat len"] by simp
  then show ?thesis using False ri s1 rd
    by (simp add: readString_def len_def[symmetric] Let_def)
qed

lemma readMeta_sent: "sent (snd (readMeta s r)) = sent s"
proof -
  obtain a1 s1 where 1: "readInt s = (a1, s1)" by (cases "readInt s")
  obtain a2 s2 where 2: "readString s1 = (a2, s2)" by (cases "readString s1")
  obtain a3 s3 where 3: "readString s2 = (a3, s3)" by (cases "readString s2")
  obtain a4 s4 where 4: "readInt s3 = (a4, s4)" by (cases "readInt s3")
  obtain a5 s5 where 5: "readInt s4 = (a5, s5)" by (cases "readInt s4")
  obtain a6 s6 where 6: "readInt s5 = (a6, s6)" by (cases "readInt s5")
  have "sent s6 = sent s"
    using readInt_sent[of s] readString_sent[of s1] readString_sent[of s2]
      readInt_sent[of s3] readInt_sent[of s4] readInt_sent[of s5]
    by (simp add: 1 2 3 4 5 6)
  then show ?thesis by (simp add: readMeta_def 1 2 3 4 5 6)
qed

lemma result_columns_effect:
  "result_columns n s imp app = (imp', app', s') \<Longrightarrow>
     length (m_records imp') = length (m_records imp) + n
     \<and> length (m_records app') = length (m_records app) + n
     \<and> sent s' = sent s"
proof (induction n arbitrary: s imp app)
  case 0
  then show ?case by simp
next
  case (Suc n)
  obtain r s1 where rm: "readMeta s new_DescriptorRecord = (r, s1)"
    by (cases "readMeta s new_DescriptorRecord")
  then have s1: "sent s1 = sent s" using readMeta_sent[of s new_DescriptorRecord] by simp
  from Suc.prems have "result_columns n s1 (addRecord r imp) (addRecord new_DescriptorRecord app)
                         = (imp', app', s')" by (simp add: rm)
  from Suc.IH[OF this] s1 show ?case by (simp add: addRecord_def)
qed

lemma processResultSet_effect:
  assumes "processResultSet s st = (st', s')"
  shows "length (m_records (m_impRow st')) = nat (sint (m_columnCount st'))"
    and "length (m_records (m_appRow st')) = nat (sint (m_columnCount st'))"
    and "sent s' = sent s"
    and "m_columnCount st' = fst (readInt (snd (readInt s)))"
    and "m_resultSetId st' = fst (readInt s)"
proof -
  obtain rsid s1 where 1: "readInt s = (rsid, s1)" by (cases "readInt s")
  obtain cols s2 where 2: "readInt s1 = (cols, s2)" by (cases "readInt s1")
  define st1 where "st1 = st\<lparr>m_rowId := 0, m_updateCount := 0, Statement.m_state := S_EXECUTED,
                    m_hasResultSet := True\<rparr>"
  obtain imp app s3 where 3: "result_columns (nat (sint cols)) s2
       (clearRecords (m_impRow st1)) (clearRecords (m_appRow st1)) = (imp, app, s3)"
    by (cases "result_columns (nat (sint cols)) s2
       (clearRecords (m_impRow st1)) (clearRecords (m_appRow st1))") auto
  have eq: "st' = st1\<lparr>m_resultSetId := rsid, m_columnCount := cols, m_impRow := imp, m_appRow := app\<rparr>"
    "s' = s3"
    using assms by (simp_all add: processResultSet_def 1 2 3 st1_def[symmetric] Let_def)
  from result_columns_effect[OF 3] readInt_sent[of s] readInt_sent[of s1]
  show "length (m_records (m_impRow st')) = nat (sint (m_columnCount st'))"
    and "length (m_records (m_appRow st')) = nat (sint (m_columnCount st'))"
    and "sent s' = sent s"
    and "m_columnCount st' = fst (readInt (snd (readInt s)))"
    and "m_resultSetId st' = fst (readInt s)"
    by (simp_all add: eq clearRecords_def 1 2)
qed

lemma processResultSet_reported:
  assumes alive: "Socket.m_socket s \<noteq> 0" and cs: "[] \<notin> set cs"
    and inc: "incoming s = map Chunk cs @ rest"
    and bytes: "concat cs = buffer_of_int rsid @ buffer_of_int N @ after"
  shows "m_resultSetId (fst (processResultSet s st)) = rsid"
    and "m_columnCount (fst (processResultSet s st)) = N"
proof -
  have four: "4 \<le> length (concat cs)" by (simp add: bytes)
  from readInt_chunks[OF alive cs inc four] obtain cs1 where
    r1: "readInt s = (int_of_buffer (take 4 (concat cs)), s\<lparr>incoming := map Chunk cs1 @ rest\<rparr>)"
    and cs1: "[] \<notin> set cs1" "concat cs1 = drop 4 (concat cs)" by blast
  have v1: "int_of_buffer (take 4 (concat cs)) = rsid"
    using int_of_buffer_of_int[of rsid "[]"] by (simp add: bytes)
  define s1 where "s1 = s\<lparr>incoming := map Chunk cs1 @ rest\<rparr>"
  have alive1: "Socket.m_socket s1 \<noteq> 0" and inc1: "incoming s1 = map Chunk cs1 @ rest"
    using alive by (simp_all add: s1_def)
  have bytes1: "concat cs1 = buffer_of_int N @ after" using cs1(2) by (simp add: bytes)
  then have four1: "4 \<le> length (concat cs1)" by simp
  from readInt_chunks[OF alive1 cs1(1) inc1 four1] obtain cs2 where
    r2: "readInt s1 = (int_of_buffer (take 4 (concat cs1)), s1\<lparr>incoming := map Chunk cs2 @ rest\<rparr>)"
    by blast
  have v2: "int_of_buffer (take 4 (concat cs1)) = N"
    using int_of_buffer_of_int[of N "[]"] by (simp add: bytes1)
  obtain st' s' where p: "processResultSet s st = (st', s')" by (cases "processResultSet s st")
  from processResultSet_effect(4,5)[OF p] r1 r2 v1 v2
  show "m_resultSetId (fst (processResultSet s st)) = rsid"
    and "m_columnCount (fst (processResultSet s st)) = N"
    by (simp_all add: p s1_def)
qed

subsection \<open>Replies of the server\<close>

text \<open>
  What the decoders return on a live session when the bytes of a reply are there, however
  they are cut into chunks, and what is left of the stream afterwards.
\<close>

lemma chr_replies:
  "chr CHR ''R'' \<noteq> chr CHR ''E''" "chr CHR ''O'' \<noteq> chr CHR ''E''"
  "chr CHR ''O'' \<noteq> chr CHR ''R''" "chr CHR ''O'' \<noteq> chr CHR ''U''"
  by (simp_all add: chr_def)

lemma readByte_chunks:
  assumes "Socket.m_socket s \<noteq> 0" and "[] \<notin> set cs" and "incoming s = map Chunk cs @ rest"
    and "concat cs = b # tail"
  shows "\<exists>cs'. readByte s = (scast b, s\<lparr>incoming := map Chunk cs' @ rest\<rparr>)
               \<and> [] \<notin> set cs' \<and> concat cs' = tail"
proof -
  have lb: "length (local_buffer s 1) = 1 + 0" by (simp add: local_buffer_def)
  have one: "1 \<le> length (concat cs)" using assms(4) by simp
  from Socket_read_chunks[OF assms(1,2,3) _ one lb] obtain cs' where
    r: "Socket_read s (local_buffer s 1) 1 =
          (take 1 (concat cs) @ drop 1 (local_buffer s 1), s\<lparr>incoming := map Chunk cs' @ rest\<rparr>)"
    and cs': "[] \<notin> set cs'" "concat cs' = drop 1 (concat cs)" by auto
  have "drop 1 (local_buffer s 1) = []" by (simp add: local_buffer_def)
  with r cs' assms(1,4) show ?thesis by (auto simp: readByte_def)
qed

lemma readInt_value:
  assumes "Socket.m_socket s \<noteq> 0" and "[] \<notin> set cs" and "incoming s = map Chunk cs @ rest"
    and "concat cs = buffer_of_int x @ tail"
  shows "\<exists>cs'. readInt s = (x, s\<lparr>incoming := map Chunk cs' @ rest\<rparr>)
               \<and> [] \<notin> set cs' \<and> concat cs' = tail"
proof -
  have four: "4 \<le> length (concat cs)" by (simp add: assms(4))
  from readInt_chunks[OF assms(1,2,3) four] obtain cs' where
    r: "readInt s = (int_of_buffer (take 4 (concat cs)), s\<lparr>incoming := map Chunk cs' @ rest\<rparr>)"
    and cs': "[] \<notin> set cs'" "concat cs' = drop 4 (concat cs)" by blast
  have "int_of_buffer (take 4 (concat cs)) = x"
    using int_of_buffer_of_int[of x "[]"] by (simp add: assms(4))
  with r cs' show ?thesis by (auto simp: assms(4))
qed

text \<open>
  Writing does not touch the incoming stream, and a session whose sends do not fail stays
  such a session through the parameter block of \<open>executePrepared\<close>, which is defined as
  long as the application descriptor holds a record for each index below the parameter
  count.
\<close>

lemma writeString_alive:
  assumes "sends_ok s"
  shows "sends_ok (writeString str s)" and "incoming (writeString str s) = incoming s"
  using Socket_write_ok(2,3)[OF writeInt_ok(2)[OF assms]] writeInt_ok(3)[OF assms]
  by (simp_all add: writeString_def Let_def)

lemma sendParameterValue_alive:
  assumes "sends_ok s"
  shows "sends_ok (sendParameterValue m r s)" and "incoming (sendParameterValue m r s) = incoming s"
  using assms
  by (simp_all add: sendParameterValue_def Let_def writeInt_ok writeString_alive)

lemma send_parameters_alive:
  "sends_ok s \<Longrightarrow> i + k \<le> length (m_records desc) \<Longrightarrow>
   \<exists>s'. send_parameters m desc i k s = Some s' \<and> sends_ok s' \<and> incoming s' = incoming s"
proof (induction k arbitrary: i s)
  case 0
  then show ?case by simp
next
  case (Suc k)
  define s1 where "s1 = writeInt (of_nat i) (writeByte (chr CHR ''1'') s)"
  have ok1: "sends_ok s1" "incoming s1 = incoming s"
    using Suc.prems(1) by (simp_all add: s1_def writeInt_ok writeByte_ok)
  have g: "getRecord desc (int i) = Some (m_records desc ! i)"
    using Suc.prems(2) by (simp add: getRecord_def)
  define s2 where "s2 = sendParameterValue m (m_records desc ! i) s1"
  have ok2: "sends_ok s2" "incoming s2 = incoming s"
    using ok1 by (simp_all add: s2_def sendParameterValue_alive)
  from Suc.IH[OF ok2(1), of "Suc i"] Suc.prems(2) obtain s' where
    "send_parameters m desc (Suc i) k s2 = Some s'" "sends_ok s'" "incoming s' = incoming s2"
    by auto
  then show ?case using ok2 g by (simp add: s1_def[symmetric] s2_def[symmetric] Let_def)
qed


lemma processResultSet_frame:
  assumes "processResultSet s st = (st', s')"
  shows "m_impParam st' = m_impParam st" and "m_appParam st' = m_appParam st"
    and "m_parameterCount st' = m_parameterCount st" and "m_preparedId st' = m_preparedId st"
  using assms by (auto simp: processResultSet_def Let_def split: prod.splits)

lemma processResultSet_columns:
  assumes alive: "Socket.m_socket s \<noteq> 0" and cs: "[] \<notin> set cs"
    and inc: "incoming s = map Chunk cs @ rest"
    and bytes: "concat cs = buffer_of_int rsid @ buffer_of_int N @ after" and N: "0 \<le> sint N"
    and p: "processResultSet s st = (st', s')"
  shows "m_columnCount st' = N"
    and "int (length (m_records (m_impRow st'))) = sint N"
    and "int (length (m_records (m_appRow st'))) = sint N"
proof -
  from processResultSet_reported(2)[OF alive cs inc bytes, of st] p
  show n: "m_columnCount st' = N" by simp
  from processResultSet_effect(1)[OF p] n N
  show "int (length (m_records (m_impRow st'))) = sint N" by simp
  from processResultSet_effect(2)[OF p] n N
  show "int (length (m_records (m_appRow st'))) = sint N" by simp
qed

lemma executePrepared_result_set:
  assumes ok: "sends_ok s" and cs: "[] \<notin> set cs" and inc: "incoming s = map Chunk cs @ rest"
    and bytes: "concat cs = [0x52] @ buffer_of_int rsid @ buffer_of_int N @ after"
    and N: "0 \<le> sint N"
    and bound: "sint (m_parameterCount st) \<le> int (length (m_records (m_appParam st)))"
  shows "\<exists>st' s'. executePrepared m s st = Some (True, st', s') \<and> m_columnCount st' = N
           \<and> int (length (m_records (m_impRow st'))) = sint N
           \<and> int (length (m_records (m_appRow st'))) = sint N
           \<and> m_impParam st' = m_impParam st \<and> m_appParam st' = m_appParam st
           \<and> m_parameterCount st' = m_parameterCount st \<and> m_preparedId st' = m_preparedId st"
proof -
  define s1 where "s1 = writeInt (m_preparedId st) (writeByte (chr CHR ''Q'') s)"
  have ok1: "sends_ok s1" "incoming s1 = incoming s"
    using ok by (simp_all add: s1_def writeInt_ok writeByte_ok)
  have "0 + nat (sint (m_parameterCount st)) \<le> length (m_records (m_appParam st))"
    using bound by simp
  from send_parameters_alive[OF ok1(1) this, of m] obtain s2 where
    sp: "send_parameters m (m_appParam st) 0 (nat (sint (m_parameterCount st))) s1 = Some s2"
    and ok2: "sends_ok s2" "incoming s2 = incoming s1" by blast
  define s3 where "s3 = writeByte (chr CHR ''0'') s2"
  have ok3: "sends_ok s3" "incoming s3 = map Chunk cs @ rest"
    using ok2 ok1 inc by (simp_all add: s3_def writeByte_ok)
  then have alive3: "Socket.m_socket s3 \<noteq> 0" by (simp add: sends_ok_def)
  have b3: "concat cs = 0x52 # (buffer_of_int rsid @ buffer_of_int N @ after)"
    using bytes by simp
  from readByte_chunks[OF alive3 cs ok3(2) b3] obtain cs' where
    rb: "readByte s3 = (scast (0x52 :: byte), s3\<lparr>incoming := map Chunk cs' @ rest\<rparr>)"
    and cs': "[] \<notin> set cs'" "concat cs' = buffer_of_int rsid @ buffer_of_int N @ after"
    by blast
  define s4 where "s4 = s3\<lparr>incoming := map Chunk cs' @ rest\<rparr>"
  have alive4: "Socket.m_socket s4 \<noteq> 0" and inc4: "incoming s4 = map Chunk cs' @ rest"
    using alive3 by (simp_all add: s4_def)
  define st1 where "st1 = st\<lparr>Statement.m_state := S_EXECUTED, m_rowId := 0, m_resultSetId := 0,
                           m_columnCount := 0, m_updateCount := 0\<rparr>"
  obtain st2 s5 where pr: "processResultSet s4 st1 = (st2, s5)" by (cases "processResultSet s4 st1")
  have rb': "readByte s3 = (chr CHR ''R'', s4)" using rb by (simp add: chr_def s4_def)
  have ex: "executePrepared m s st = Some (True, st2, s5)"
    by (simp add: executePrepared_def s1_def[symmetric] sp s3_def[symmetric] rb'
        st1_def[symmetric] pr Let_def chr_replies)
  from processResultSet_columns[OF alive4 cs'(1) inc4 cs'(2) N pr]
    processResultSet_frame[OF pr]
  show ?thesis using ex by (simp add: st1_def)
qed


lemma executePrepared_frame:
  assumes ok: "sends_ok s"
    and bound: "sint (m_parameterCount st) \<le> int (length (m_records (m_appParam st)))"
  shows "\<exists>ok' st' s'. executePrepared m s st = Some (ok', st', s')
           \<and> m_impParam st' = m_impParam st \<and> m_appParam st' = m_appParam st
           \<and> m_parameterCount st' = m_parameterCount st \<and> m_preparedId st' = m_preparedId st"
proof -
  define s1 where "s1 = writeInt (m_preparedId st) (writeByte (chr CHR ''Q'') s)"
  have ok1: "sends_ok s1" using ok by (simp add: s1_def writeInt_ok writeByte_ok)
  have "0 + nat (sint (m_parameterCount st)) \<le> length (m_records (m_appParam st))"
    using bound by simp
  from send_parameters_alive[OF ok1 this, of m] obtain s2 where
    sp: "send_parameters m (m_appParam st) 0 (nat (sint (m_parameterCount st))) s1 = Some s2"
    by blast
  define s3 where "s3 = writeByte (chr CHR ''0'') s2"
  obtain result s4 where rb: "readByte s3 = (result, s4)" by (cases "readByte s3")
  define st1 where "st1 = st\<lparr>Statement.m_state := S_EXECUTED, m_rowId := 0, m_resultSetId := 0,
                           m_columnCount := 0, m_updateCount := 0\<rparr>"
  obtain st2 s5 where pr: "processResultSet s4 st1 = (st2, s5)" by (cases "processResultSet s4 st1")
  obtain n s6 where ri: "readInt s4 = (n, s6)" by (cases "readInt s4")
  have st1: "m_impParam st1 = m_impParam st" "m_appParam st1 = m_appParam st"
    "m_parameterCount st1 = m_parameterCount st" "m_preparedId st1 = m_preparedId st"
    by (simp_all add: st1_def)
  show ?thesis
    using processResultSet_frame[OF pr] st1
    by (auto simp: executePrepared_def s1_def[symmetric] sp s3_def[symmetric] rb
        st1_def[symmetric] pr ri Let_def)
qed

lemma execute_result_set:
  assumes ok: "sends_ok s" and cs: "[] \<notin> set cs" and inc: "incoming s = map Chunk cs @ rest"
    and bytes: "concat cs = [0x52] @ buffer_of_int rsid @ buffer_of_int N @ after"
    and N: "0 \<le> sint N"
  shows "\<exists>st' s'. execute m sql s st = Some (True, st', s') \<and> m_columnCount st' = N
           \<and> int (length (m_records (m_impRow st'))) = sint N
           \<and> int (length (m_records (m_appRow st'))) = sint N"
proof -
  define s1 where "s1 = writeString sql (writeByte (chr CHR ''E'') s)"
  have ok1: "sends_ok s1" "incoming s1 = map Chunk cs @ rest"
    using ok inc by (simp_all add: s1_def writeString_alive writeByte_ok)
  then have alive1: "Socket.m_socket s1 \<noteq> 0" by (simp add: sends_ok_def)
  have b1: "concat cs = 0x52 # (buffer_of_int rsid @ buffer_of_int N @ after)"
    using bytes by simp
  from readByte_chunks[OF alive1 cs ok1(2) b1] obtain cs' where
    rb: "readByte s1 = (scast (0x52 :: byte), s1\<lparr>incoming := map Chunk cs' @ rest\<rparr>)"
    and cs': "[] \<notin> set cs'" "concat cs' = buffer_of_int rsid @ buffer_of_int N @ after"
    by blast
  define s2 where "s2 = s1\<lparr>incoming := map Chunk cs' @ rest\<rparr>"
  have alive2: "Socket.m_socket s2 \<noteq> 0" and inc2: "incoming s2 = map Chunk cs' @ rest"
    using alive1 by (simp_all add: s2_def)
  have rb': "readByte s1 = (chr CHR ''R'', s2)" using rb by (simp add: chr_def s2_def)
  define st1 where "st1 = st\<lparr>m_sql := c_str sql, Statement.m_state := S_EXECUTED, m_rowId := 0,
       m_resultSetId := 0, m_columnCount := 0, m_updateCount := 0, m_parameterCount := 0\<rparr>"
  obtain st2 s3 where pr: "processResultSet s2 st1 = (st2, s3)" by (cases "processResultSet s2 st1")
  have ex: "execute m sql s st = Some (True, st2, s3)"
    by (simp add: execute_def s1_def[symmetric] rb' st1_def[symmetric] pr Let_def chr_replies)
  from processResultSet_columns[OF alive2 cs'(1) inc2 cs'(2) N pr]
  show ?thesis using ex by simp
qed

lemma accepted_reply:
  assumes ok: "sends_ok s1" and cs: "[] \<notin> set cs" and inc: "incoming s1 = map Chunk cs @ rest"
    and bytes: "concat cs = [0x4F] @ buffer_of_int pid @ buffer_of_int N @ after"
  shows "\<exists>s2 s3 s4 cs4. readByte s1 = (chr CHR ''O'', s2) \<and> readInt s2 = (pid, s3)
           \<and> readInt s3 = (N, s4) \<and> sends_ok s4 \<and> [] \<notin> set cs4
           \<and> incoming s4 = map Chunk cs4 @ rest \<and> concat cs4 = after"
proof -
  have alive1: "Socket.m_socket s1 \<noteq> 0" using ok by (simp add: sends_ok_def)
  have b1: "concat cs = 0x4F # (buffer_of_int pid @ buffer_of_int N @ after)"
    using bytes by simp
  from readByte_chunks[OF alive1 cs inc b1] obtain cs2 where
    rb: "readByte s1 = (scast (0x4F :: byte), s1\<lparr>incoming := map Chunk cs2 @ rest\<rparr>)"
    and cs2: "[] \<notin> set cs2" "concat cs2 = buffer_of_int pid @ buffer_of_int N @ after"
    by blast
  define s2 where "s2 = s1\<lparr>incoming := map Chunk cs2 @ rest\<rparr>"
  have ok2: "sends_ok s2" and inc2: "incoming s2 = map Chunk cs2 @ rest"
    using ok by (simp_all add: s2_def sends_ok_def)
  then have alive2: "Socket.m_socket s2 \<noteq> 0" by (simp add: sends_ok_def)
  have rb': "readByte s1 = (chr CHR ''O'', s2)" using rb by (simp add: chr_def s2_def)
  from readInt_value[OF alive2 cs2(1) inc2 cs2(2)] obtain cs3 where
    r1: "readInt s2 = (pid, s2\<lparr>incoming := map Chunk cs3 @ rest\<rparr>)"
    and cs3: "[] \<notin> set cs3" "concat cs3 = buffer_of_int N @ after" by blast
  define s3 where "s3 = s2\<lparr>incoming := map Chunk cs3 @ rest\<rparr>"
  have ok3: "sends_ok s3" and inc3: "incoming s3 = map Chunk cs3 @ rest"
    using ok2 by (simp_all add: s3_def sends_ok_def)
  then have alive3: "Socket.m_socket s3 \<noteq> 0" by (simp add: sends_ok_def)
  from readInt_value[OF alive3 cs3(1) inc3 cs3(2)] obtain cs4 where
    r2: "readInt s3 = (N, s3\<lparr>incoming := map Chunk cs4 @ rest\<rparr>)"
    and cs4: "[] \<notin> set cs4" "concat cs4 = after" by blast
  define s4 where "s4 = s3\<lparr>incoming := map Chunk cs4 @ rest\<rparr>"
  have ok4: "sends_ok s4" and inc4: "incoming s4 = map Chunk cs4 @ rest"
    using ok3 by (simp_all add: s4_def sends_ok_def)
  from rb' r1 r2 ok4 inc4 cs4 show ?thesis
    unfolding s3_def[symmetric] s4_def[symmetric] by blast
qed

lemma prepare_accepted:
  assumes ok: "sends_ok s" and cs: "[] \<notin> set cs" and inc: "incoming s = map Chunk cs @ rest"
    and bytes: "concat cs = [0x4F] @ buffer_of_int pid @ buffer_of_int N @ after"
  shows "\<exists>st' s'. prepare sql s st = (True, st', s') \<and> m_preparedId st' = pid
           \<and> m_parameterCount st' = N
           \<and> m_records (m_impParam st') = [] \<and> m_records (m_appParam st') = []"
proof -
  define s1 where "s1 = writeString sql (writeByte (chr CHR ''P'') s)"
  have ok1: "sends_ok s1" "incoming s1 = map Chunk cs @ rest"
    using ok inc by (simp_all add: s1_def writeString_alive writeByte_ok)
  from accepted_reply[OF ok1(1) cs ok1(2) bytes] obtain s2 s3 s4 where
    r: "readByte s1 = (chr CHR ''O'', s2)" "readInt s2 = (pid, s3)" "readInt s3 = (N, s4)"
    by blast
  show ?thesis
    by (simp add: prepare_def s1_def[symmetric] r Let_def chr_replies clearRecords_def)
qed

lemma execute_accepted:
  assumes ok: "sends_ok s" and cs: "[] \<notin> set cs" and inc: "incoming s = map Chunk cs @ rest"
    and bytes: "concat cs = [0x4F] @ buffer_of_int pid @ buffer_of_int N @ after"
  shows "\<exists>s4 cs4. execute m sql s st =
             executePrepared m s4
               (st\<lparr>m_sql := c_str sql, Statement.m_state := S_EXECUTED, m_rowId := 0,
                   m_resultSetId := 0, m_columnCount := 0, m_updateCount := 0,
                   m_preparedId := pid, m_parameterCount := N\<rparr>)
           \<and> sends_ok s4 \<and> [] \<notin> set cs4 \<and> incoming s4 = map Chunk cs4 @ rest
           \<and> concat cs4 = after"
proof -
  define s1 where "s1 = writeString sql (writeByte (chr CHR ''E'') s)"
  have ok1: "sends_ok s1" "incoming s1 = map Chunk cs @ rest"
    using ok inc by (simp_all add: s1_def writeString_alive writeByte_ok)
  from accepted_reply[OF ok1(1) cs ok1(2) bytes] obtain s2 s3 s4 cs4 where
    r: "readByte s1 = (chr CHR ''O'', s2)" "readInt s2 = (pid, s3)" "readInt s3 = (N, s4)"
    and s4: "sends_ok s4" "[] \<notin> set cs4" "incoming s4 = map Chunk cs4 @ rest" "concat cs4 = after"
    by blast
  have "execute m sql s st =
             executePrepared m s4
               (st\<lparr>m_sql := c_str sql, Statement.m_state := S_EXECUTED, m_rowId := 0,
                   m_resultSetId := 0, m_columnCount := 0, m_updateCount := 0,
                   m_preparedId := pid, m_parameterCount := N\<rparr>)"
    by (simp add: execute_def s1_def[symmetric] r Let_def chr_replies)
  with s4 show ?thesis by blast
qed

subsection \<open>Record counts\<close>

text \<open>
  Claim C3, as amended. On a live session whose sends do not fail, with the reply of the
  server in the incoming stream:

  \<^item> \<open>execute\<close> answered \<open>'R'\<close> with \<open>N \<ge> 0\<close> columns succeeds, stores the column count
    \<open>N\<close> and leaves exactly \<open>N\<close> records in the implementation row descriptor and \<open>N\<close> in
    the application row descriptor; so does \<open>executePrepared\<close>, whose parameter block is
    defined when the application parameter descriptor holds at least as many records as
    the parameter count; so does \<open>execute\<close> answered \<open>'O'\<close> and then \<open>'R'\<close>.

  \<^item> \<open>prepare\<close> answered \<open>'O'\<close> with \<open>N\<close> parameters stores the prepared id and the
    parameter count \<open>N\<close>, and empties both parameter descriptors: they hold no record,
    whatever \<open>N\<close> is.

  \<^item> \<open>execute\<close> answered \<open>'O'\<close> with \<open>N\<close> parameters stores the prepared id and the
    parameter count \<open>N\<close> and leaves both parameter descriptors as they were.

  \<^item> \<open>addParameter\<close>, called when the application binds a parameter, adds one record to
    each of the two parameter descriptors.
\<close>

theorem descriptor_record_counts:
  assumes ok: "sends_ok s" and cs: "[] \<notin> set cs" and inc: "incoming s = map Chunk cs @ rest"
  shows
   "(concat cs = [0x52] @ buffer_of_int rsid @ buffer_of_int N @ after \<and> 0 \<le> sint N
       \<longrightarrow> (\<exists>st' s'. execute m sql s st = Some (True, st', s') \<and> m_columnCount st' = N
              \<and> int (length (m_records (m_impRow st'))) = sint N
              \<and> int (length (m_records (m_appRow st'))) = sint N))
    \<and> (concat cs = [0x52] @ buffer_of_int rsid @ buffer_of_int N @ after \<and> 0 \<le> sint N
        \<and> sint (m_parameterCount st) \<le> int (length (m_records (m_appParam st)))
       \<longrightarrow> (\<exists>st' s'. executePrepared m s st = Some (True, st', s') \<and> m_columnCount st' = N
              \<and> int (length (m_records (m_impRow st'))) = sint N
              \<and> int (length (m_records (m_appRow st'))) = sint N))
    \<and> (concat cs = [0x4F] @ buffer_of_int pid @ buffer_of_int N @ after
       \<longrightarrow> (\<exists>st' s'. prepare sql s st = (True, st', s') \<and> m_preparedId st' = pid
              \<and> m_parameterCount st' = N
              \<and> m_records (m_impParam st') = [] \<and> m_records (m_appParam st') = []))
    \<and> (concat cs = [0x4F] @ buffer_of_int pid @ buffer_of_int N @ after
        \<and> sint N \<le> int (length (m_records (m_appParam st)))
       \<longrightarrow> (\<exists>ok' st' s'. execute m sql s st = Some (ok', st', s') \<and> m_preparedId st' = pid
              \<and> m_parameterCount st' = N
              \<and> m_impParam st' = m_impParam st \<and> m_appParam st' = m_appParam st))
    \<and> (concat cs = [0x4F] @ buffer_of_int pid @ buffer_of_int N
                      @ [0x52] @ buffer_of_int rsid @ buffer_of_int K @ after
        \<and> sint N \<le> int (length (m_records (m_appParam st))) \<and> 0 \<le> sint K
       \<longrightarrow> (\<exists>st' s'. execute m sql s st = Some (True, st', s') \<and> m_columnCount st' = K
              \<and> int (length (m_records (m_impRow st'))) = sint K
              \<and> int (length (m_records (m_appRow st'))) = sint K))
    \<and> length (m_records (m_impParam (addParameter st))) = Suc (length (m_records (m_impParam st)))
    \<and> length (m_records (m_appParam (addParameter st))) = Suc (length (m_records (m_appParam st)))"
proof (intro conjI impI)
  assume "concat cs = [0x52] @ buffer_of_int rsid @ buffer_of_int N @ after \<and> 0 \<le> sint N"
  then show "\<exists>st' s'. execute m sql s st = Some (True, st', s') \<and> m_columnCount st' = N
              \<and> int (length (m_records (m_impRow st'))) = sint N
              \<and> int (length (m_records (m_appRow st'))) = sint N"
    using execute_result_set[OF ok cs inc, of rsid N after m sql st] by blast
next
  assume h: "concat cs = [0x52] @ buffer_of_int rsid @ buffer_of_int N @ after \<and> 0 \<le> sint N
        \<and> sint (m_parameterCount st) \<le> int (length (m_records (m_appParam st)))"
  from h executePrepared_result_set[OF ok cs inc, of rsid N after st m]
  obtain st' s' where "executePrepared m s st = Some (True, st', s')" "m_columnCount st' = N"
    "int (length (m_records (m_impRow st'))) = sint N"
    "int (length (m_records (m_appRow st'))) = sint N" by blast
  then show "\<exists>st' s'. executePrepared m s st = Some (True, st', s') \<and> m_columnCount st' = N
              \<and> int (length (m_records (m_impRow st'))) = sint N
              \<and> int (length (m_records (m_appRow st'))) = sint N" by blast
next
  assume "concat cs = [0x4F] @ buffer_of_int pid @ buffer_of_int N @ after"
  from prepare_accepted[OF ok cs inc this]
  show "\<exists>st' s'. prepare sql s st = (True, st', s') \<and> m_preparedId st' = pid
              \<and> m_parameterCount st' = N
              \<and> m_records (m_impParam st') = [] \<and> m_records (m_appParam st') = []" .
next
  assume h: "concat cs = [0x4F] @ buffer_of_int pid @ buffer_of_int N @ after
        \<and> sint N \<le> int (length (m_records (m_appParam st)))"
  define st1 where "st1 = st\<lparr>m_sql := c_str sql, Statement.m_state := S_EXECUTED, m_rowId := 0,
       m_resultSetId := 0, m_columnCount := 0, m_updateCount := 0,
       m_preparedId := pid, m_parameterCount := N\<rparr>"
  from h execute_accepted[OF ok cs inc, of pid N after m sql st] obtain s4 where
    e: "execute m sql s st = executePrepared m s4 st1" and ok4: "sends_ok s4"
    unfolding st1_def by blast
  have b: "sint (m_parameterCount st1) \<le> int (length (m_records (m_appParam st1)))"
    using h by (simp add: st1_def)
  from executePrepared_frame[OF ok4 b, of m] e
  show "\<exists>ok' st' s'. execute m sql s st = Some (ok', st', s') \<and> m_preparedId st' = pid
              \<and> m_parameterCount st' = N
              \<and> m_impParam st' = m_impParam st \<and> m_appParam st' = m_appParam st"
    by (auto simp: st1_def)
next
  assume h: "concat cs = [0x4F] @ buffer_of_int pid @ buffer_of_int N
                      @ [0x52] @ buffer_of_int rsid @ buffer_of_int K @ after
        \<and> sint N \<le> int (length (m_records (m_appParam st))) \<and> 0 \<le> sint K"
  define st1 where "st1 = st\<lparr>m_sql := c_str sql, Statement.m_state := S_EXECUTED, m_rowId := 0,
       m_resultSetId := 0, m_columnCount := 0, m_updateCount := 0,
       m_preparedId := pid, m_parameterCount := N\<rparr>"
  from h execute_accepted[OF ok cs inc,
      of pid N "[0x52] @ buffer_of_int rsid @ buffer_of_int K @ after" m sql st]
  obtain s4 cs4 where
    e: "execute m sql s st = executePrepared m s4 st1" and ok4: "sends_ok s4"
    and cs4: "[] \<notin> set cs4" "incoming s4 = map Chunk cs4 @ rest"
      "concat cs4 = [0x52] @ buffer_of_int rsid @ buffer_of_int K @ after"
    unfolding st1_def by blast
  have b: "sint (m_parameterCount st1) \<le> int (length (m_records (m_appParam st1)))"
    using h by (simp add: st1_def)
  have K: "0 \<le> sint K" using h by simp
  from executePrepared_result_set[OF ok4 cs4 K b, of m] e
  show "\<exists>st' s'. execute m sql s st = Some (True, st', s') \<and> m_columnCount st' = K
              \<and> int (length (m_records (m_impRow st'))) = sint K
              \<and> int (length (m_records (m_appRow st'))) = sint K"
    by auto
next
  show "length (m_records (m_impParam (addParameter st))) = Suc (length (m_records (m_impParam st)))"
    by (simp add: addParameter_def addRecord_def)
  show "length (m_records (m_appParam (addParameter st))) = Suc (length (m_records (m_appParam st)))"
    by (simp add: addParameter_def addRecord_def)
qed

theorem descriptor_record_counts_witness:
  "sends_ok (wit_sock (map Chunk ex_reply_R) []) \<and> [] \<notin> set ex_reply_R
   \<and> concat ex_reply_R = [0x52] @ buffer_of_int 7 @ buffer_of_int 1 @ drop 8 (concat ex_result_set)
   \<and> sends_ok (wit_sock (map Chunk ex_reply_O) []) \<and> [] \<notin> set ex_reply_O
   \<and> concat ex_reply_O = [0x4F] @ buffer_of_int 5 @ buffer_of_int 1 @ concat ex_reply_R
   \<and> (0 :: int) \<le> sint (1 :: int32)
   \<and> sint (m_parameterCount ex_prepared) \<le> int (length (m_records (m_appParam ex_prepared)))
   \<and> sint (1 :: int32) \<le> int (length (m_records (m_appParam ex_prepared)))
   \<and> m_records (m_impParam ex_prepared) \<noteq> [] \<and> m_records (m_appParam ex_prepared) \<noteq> []
   \<and> (\<exists>st' s'. execute ex_mem (cstr ''X'') (wit_sock (map Chunk ex_reply_R) []) ex_prepared
                  = Some (True, st', s') \<and> m_columnCount st' = 1
          \<and> int (length (m_records (m_impRow st'))) = 1
          \<and> int (length (m_records (m_appRow st'))) = 1)
   \<and> (\<exists>st' s'. executePrepared ex_mem (wit_sock (map Chunk ex_reply_R) []) ex_prepared
                  = Some (True, st', s') \<and> m_columnCount st' = 1
          \<and> int (length (m_records (m_impRow st'))) = 1
          \<and> int (length (m_records (m_appRow st'))) = 1)
   \<and> (\<exists>st' s'. prepare (cstr ''X'') (wit_sock [Chunk [0x4F, 0, 0, 0, 5, 0, 0, 0, 2]] []) ex_prepared
                  = (True, st', s') \<and> m_preparedId st' = 5 \<and> m_parameterCount st' = 2
          \<and> m_records (m_impParam st') = [] \<and> m_records (m_appParam st') = [])
   \<and> (\<exists>ok' st' s'. execute ex_mem (cstr ''X'') (wit_sock (map Chunk ex_reply_O) []) ex_prepared
                  = Some (ok', st', s') \<and> m_preparedId st' = 5 \<and> m_parameterCount st' = 1
          \<and> m_impParam st' = m_impParam ex_prepared \<and> m_appParam st' = m_appParam ex_prepared)
   \<and> (\<exists>st' s'. execute ex_mem (cstr ''X'') (wit_sock (map Chunk ex_reply_O) []) ex_prepared
                  = Some (True, st', s') \<and> m_columnCount st' = 1
          \<and> int (length (m_records (m_impRow st'))) = 1
          \<and> int (length (m_records (m_appRow st'))) = 1)"
proof -
  let ?r = "wit_sock (map Chunk ex_reply_R) []"
  let ?o = "wit_sock (map Chunk ex_reply_O) []"
  let ?p = "wit_sock [Chunk [0x4F, 0, 0, 0, 5, 0, 0, 0, 2]] []"
  let ?meta = "drop 8 (concat ex_result_set)"
  have r: "sends_ok ?r" "incoming ?r = map Chunk ex_reply_R @ []"
    and o: "sends_ok ?o" "incoming ?o = map Chunk ex_reply_O @ []"
    and p: "sends_ok ?p" "incoming ?p = map Chunk [[0x4F, 0, 0, 0, 5, 0, 0, 0, 2]] @ []"
    by (simp_all add: sends_ok_def wit_sock_def)
  have nr: "[] \<notin> set ex_reply_R" and no: "[] \<notin> set ex_reply_O"
    and np: "[] \<notin> set [[0x4F, 0, 0, 0, 5, 0, 0, 0, 2 :: byte]]"
    by (simp_all add: ex_reply_O_def ex_reply_R_def ex_result_set_def)
  have br: "concat ex_reply_R = [0x52] @ buffer_of_int 7 @ buffer_of_int 1 @ ?meta"
    by (simp add: ex_reply_R_def ex_result_set_def buffer_of_int_def)
  have bo: "concat ex_reply_O = [0x4F] @ buffer_of_int 5 @ buffer_of_int 1 @ concat ex_reply_R"
    by (simp add: ex_reply_O_def buffer_of_int_def)
  have bo2: "concat ex_reply_O = [0x4F] @ buffer_of_int 5 @ buffer_of_int 1
                @ [0x52] @ buffer_of_int 7 @ buffer_of_int 1 @ ?meta"
    using bo br by simp
  have bp: "concat [[0x4F, 0, 0, 0, 5, 0, 0, 0, 2 :: byte]]
              = [0x4F] @ buffer_of_int 5 @ buffer_of_int 2 @ []"
    by (simp add: buffer_of_int_def)
  have one: "(0 :: int) \<le> sint (1 :: int32)" by simp
  have b1: "sint (m_parameterCount ex_prepared) \<le> int (length (m_records (m_appParam ex_prepared)))"
    and b2: "sint (1 :: int32) \<le> int (length (m_records (m_appParam ex_prepared)))"
    and ne: "m_records (m_impParam ex_prepared) \<noteq> []" "m_records (m_appParam ex_prepared) \<noteq> []"
    by (simp_all add: ex_prepared_def new_Statement_def addRecord_def new_Descriptor_def)
  note R = descriptor_record_counts[OF r(1) nr r(2), where rsid = 7 and N = 1 and after = ?meta
      and m = ex_mem and sql = "cstr ''X''" and st = ex_prepared]
  note P = descriptor_record_counts[OF p(1) np p(2), where pid = 5 and N = 2 and after = "[]"
      and sql = "cstr ''X''" and st = ex_prepared]
  note O = descriptor_record_counts[OF o(1) no o(2), where pid = 5 and N = 1 and rsid = 7
      and K = 1 and after = "concat ex_reply_R" and m = ex_mem and sql = "cstr ''X''"
      and st = ex_prepared]
  note O2 = descriptor_record_counts[OF o(1) no o(2), where pid = 5 and N = 1 and rsid = 7
      and K = 1 and after = ?meta and m = ex_mem and sql = "cstr ''X''" and st = ex_prepared]
  have c1: "\<exists>st' s'. execute ex_mem (cstr ''X'') ?r ex_prepared
                  = Some (True, st', s') \<and> m_columnCount st' = 1
          \<and> int (length (m_records (m_impRow st'))) = 1
          \<and> int (length (m_records (m_appRow st'))) = 1"
    using R br one by simp
  have c2: "\<exists>st' s'. executePrepared ex_mem ?r ex_prepared
                  = Some (True, st', s') \<and> m_columnCount st' = 1
          \<and> int (length (m_records (m_impRow st'))) = 1
          \<and> int (length (m_records (m_appRow st'))) = 1"
    using R br one b1 by simp
  have c3: "\<exists>st' s'. prepare (cstr ''X'') ?p ex_prepared
                  = (True, st', s') \<and> m_preparedId st' = 5 \<and> m_parameterCount st' = 2
          \<and> m_records (m_impParam st') = [] \<and> m_records (m_appParam st') = []"
    using P bp by simp
  have c4: "\<exists>ok' st' s'. execute ex_mem (cstr ''X'') ?o ex_prepared
                  = Some (ok', st', s') \<and> m_preparedId st' = 5 \<and> m_parameterCount st' = 1
          \<and> m_impParam st' = m_impParam ex_prepared \<and> m_appParam st' = m_appParam ex_prepared"
    using O bo b2 by simp
  have c5: "\<exists>st' s'. execute ex_mem (cstr ''X'') ?o ex_prepared
                  = Some (True, st', s') \<and> m_columnCount st' = 1
          \<and> int (length (m_records (m_impRow st'))) = 1
          \<and> int (length (m_records (m_appRow st'))) = 1"
    using O2 bo2 b2 one by simp
  from r(1) nr br o(1) no bo one b1 b2 ne c1 c2 c3 c4 c5 show ?thesis by blast
qed

text \<open>
  The claim as stated fails for the parameters. \<open>ex_prepared\<close> holds one record in each
  parameter descriptor. A prepare answered \<open>'O'\<close> with 2 parameters leaves no record in
  either; an execute answered \<open>'O'\<close> with 0 parameters, then \<open>'U'\<close>, leaves one record in
  each.
\<close>

theorem parameter_records_differ_from_reported_count:
  "length (m_records (m_impParam ex_prepared)) = 1
   \<and> length (m_records (m_appParam ex_prepared)) = 1
   \<and> fst ex_accepted = True
   \<and> m_preparedId (fst (snd ex_accepted)) = 5
   \<and> m_parameterCount (fst (snd ex_accepted)) = 2
   \<and> length (m_records (m_impParam (fst (snd ex_accepted)))) = 0
   \<and> length (m_records (m_appParam (fst (snd ex_accepted)))) = 0
   \<and> ex_direct \<noteq> None
   \<and> fst (the ex_direct) = True
   \<and> m_preparedId (fst (snd (the ex_direct))) = 9
   \<and> m_parameterCount (fst (snd (the ex_direct))) = 0
   \<and> m_updateCount (fst (snd (the ex_direct))) = 1
   \<and> length (m_records (m_impParam (fst (snd (the ex_direct))))) = 1
   \<and> length (m_records (m_appParam (fst (snd (the ex_direct))))) = 1"
  by code_simp

text \<open>
  The index checks are the callers' business, \<open>getRecord\<close> having none. \<open>SQLBindCol\<close>
  on the statement of \<open>ex_heap\<close>, which has no column, rejects column 3 and lets
  column 1, that is index 0, through to the unchecked \<open>getRecord\<close>.
\<close>

lemma SQLBindCol_index_checks:
  "map_option fst (SQLBindCol ex_heap 8192 3 1 100 3 200) = Some SQL_ERROR
   \<and> SQLBindCol ex_heap 8192 1 1 100 3 200 = None"
  by (simp add: SQLBindCol_def Statement_cast_def ex_heap_def new_Statement_def MAGIC_STATEMENT_def
      new_Descriptor_def getRecord_def SQL_ERROR_def)

subsection \<open>A rejected prepare\<close>





section \<open>Properties of connections\<close>

text \<open>
  Claim C9. \<open>setAutoCommit\<close> with the value the connection already has changes nothing
  and so writes nothing; with the other value, on a session that is alive and accepts
  the bytes, it writes exactly \<open>'A'\<close> followed by \<open>'1'\<close> or \<open>'0'\<close> and stores the
  new value.
\<close>

theorem setAutoCommit_toggle:
  "(autocommit = m_autoCommit c \<longrightarrow> setAutoCommit autocommit c = Some c)
   \<and> (autocommit \<noteq> m_autoCommit c \<and> Connection.m_socket c = Some s \<and> sends_ok s \<longrightarrow>
        (\<exists>s'. setAutoCommit autocommit c
                 = Some (c\<lparr>Connection.m_socket := Some s', m_autoCommit := autocommit\<rparr>)
              \<and> sent s' = sent s @ [0x41, if autocommit then 0x31 else 0x30]
              \<and> incoming s' = incoming s \<and> sends_ok s'))"
proof (intro conjI impI)
  assume "autocommit = m_autoCommit c"
  then show "setAutoCommit autocommit c = Some c" by (simp add: setAutoCommit_def)
next
  assume h: "autocommit \<noteq> m_autoCommit c \<and> Connection.m_socket c = Some s \<and> sends_ok s"
  define b where "b = (if autocommit then chr CHR ''1'' else chr CHR ''0'')"
  define s' where "s' = writeByte b (writeByte (chr CHR ''A'') s)"
  have ok1: "sends_ok (writeByte (chr CHR ''A'') s)" using h by (simp add: writeByte_ok)
  have "setAutoCommit autocommit c
          = Some (c\<lparr>Connection.m_socket := Some s', m_autoCommit := autocommit\<rparr>)"
    using h by (simp add: setAutoCommit_def s'_def b_def)
  moreover have "sent s' = sent s @ [0x41, if autocommit then 0x31 else 0x30]"
    using h ok1 by (simp add: s'_def b_def writeByte_ok chr_bytes)
  moreover have "incoming s' = incoming s" "sends_ok s'"
    using h ok1 by (simp_all add: s'_def writeByte_ok)
  ultimately show "\<exists>s'. setAutoCommit autocommit c
                 = Some (c\<lparr>Connection.m_socket := Some s', m_autoCommit := autocommit\<rparr>)
              \<and> sent s' = sent s @ [0x41, if autocommit then 0x31 else 0x30]
              \<and> incoming s' = incoming s \<and> sends_ok s'" by blast
qed

theorem setAutoCommit_toggle_witness:
  "setAutoCommit True (ex_connection\<lparr>Connection.m_socket := Some (wit_sock [] [])\<rparr>)
     = Some (ex_connection\<lparr>Connection.m_socket := Some (wit_sock [] [])\<rparr>)
   \<and> sends_ok (wit_sock [] [])
   \<and> (\<exists>s'. setAutoCommit False (ex_connection\<lparr>Connection.m_socket := Some (wit_sock [] [])\<rparr>)
               = Some (ex_connection\<lparr>Connection.m_socket := Some s', m_autoCommit := False\<rparr>)
            \<and> sent s' = [0x41, 0x30])"
proof -
  let ?c = "ex_connection\<lparr>Connection.m_socket := Some (wit_sock [] [])\<rparr>"
  have ac: "m_autoCommit ?c = True" and so: "Connection.m_socket ?c = Some (wit_sock [] [])"
    by (simp_all add: ex_connection_def)
  have ok: "sends_ok (wit_sock [] [])" and se: "sent (wit_sock [] []) = []"
    by (simp_all add: sends_ok_def wit_sock_def)
  from setAutoCommit_toggle[of True ?c "wit_sock [] []"] ac
  have a: "setAutoCommit True ?c = Some ?c" by simp
  from setAutoCommit_toggle[of False ?c "wit_sock [] []"] ac so ok se
  have b: "\<exists>s'. setAutoCommit False ?c = Some (?c\<lparr>Connection.m_socket := Some s', m_autoCommit := False\<rparr>)
              \<and> sent s' = [0x41, 0x30]" by auto
  then have "\<exists>s'. setAutoCommit False ?c
               = Some (ex_connection\<lparr>Connection.m_socket := Some s', m_autoCommit := False\<rparr>)
            \<and> sent s' = [0x41, 0x30]" by simp
  with a ok show ?thesis by blast
qed

lemma open_keeps_state: "Connection.m_state (open net name user password c) = Connection.m_state c"
  by (simp add: open_def Let_def split: prod.splits)

text \<open>
  Claim C4. The claim is that \<open>open\<close> moves the connection to OPEN on the reply \<open>'O'\<close>
  and to CLOSED, with diagnostic 08004, on any other reply, and records 08001 when the
  stream could not be established. In \<open>Connection::open\<close> every state change is written
  \<open>m_state == ...\<close>, and \<open>Socket::isClosed\<close> returns \<open>m_socket != 0\<close>. With a well-formed
  target, a stream that is established and a server ready to answer \<open>'O'\<close>, \<open>open\<close>
  records 08001, sends nothing and leaves the state INIT; when the stream cannot be
  established it goes on to the handshake on the dead socket and records 08004, the
  state again INIT.
\<close>

theorem open_never_opens:
  "Connection.m_state ex_connection = C_INIT
   \<and> Connection.m_state (ex_opened Connected) = C_INIT
   \<and> Connection.m_error (ex_opened Connected) = Some E_08001
   \<and> map_option sent (Connection.m_socket (ex_opened Connected)) = Some []
   \<and> map_option incoming (Connection.m_socket (ex_opened Connected)) = Some [Chunk [0x4F]]
   \<and> Connection.m_state (ex_opened ConnectFailed) = C_INIT
   \<and> Connection.m_error (ex_opened ConnectFailed) = Some E_08004"
  by code_simp

section \<open>Properties of handles\<close>

lemma Statement_cast_valid:
  "Statement_cast h p \<noteq> 0 \<longleftrightarrow> p \<noteq> 0 \<and> first_int (h p) = MAGIC_STATEMENT"
  "Statement_cast h p \<noteq> 0 \<Longrightarrow> Statement_cast h p = p"
  by (simp_all add: Statement_cast_def split: if_splits)

lemma Connection_cast_valid:
  "Connection_cast h p \<noteq> 0 \<longleftrightarrow> p \<noteq> 0 \<and> first_int (h p) = MAGIC_CONNECTION"
  "Connection_cast h p \<noteq> 0 \<Longrightarrow> Connection_cast h p = p"
  by (simp_all add: Connection_cast_def split: if_splits)

lemma Environment_cast_valid:
  "Environment_cast h p \<noteq> 0 \<longleftrightarrow> p \<noteq> 0 \<and> first_int (h p) = MAGIC_ENVIRONMENT"
  "Environment_cast h p \<noteq> 0 \<Longrightarrow> Environment_cast h p = p"
  by (simp_all add: Environment_cast_def split: if_splits)

lemma Statement_cast_destroyed:
  "Statement.m_magic st = MAGIC_STATEMENT \<Longrightarrow>
   Statement_cast (h(p := StmtObj (Statement_dtor st))) p = 0"
  by (simp add: Statement_cast_def Statement_dtor_def MAGIC_STATEMENT_def)

lemma Connection_cast_destroyed:
  "Connection.m_magic c = MAGIC_CONNECTION \<Longrightarrow>
   Connection_cast (h(p := ConnObj (Connection_dtor c))) p = 0"
  by (simp add: Connection_cast_def Connection_dtor_def MAGIC_CONNECTION_def)

lemma Environment_cast_destroyed:
  "Environment.m_magic e = MAGIC_ENVIRONMENT \<Longrightarrow>
   Environment_cast (h(p := EnvObj (Environment_dtor e))) p = 0"
  by (simp add: Environment_cast_def Environment_dtor_def MAGIC_ENVIRONMENT_def)

lemma magics_distinct:
  "MAGIC_ENVIRONMENT \<noteq> MAGIC_CONNECTION" "MAGIC_ENVIRONMENT \<noteq> MAGIC_STATEMENT"
  "MAGIC_ENVIRONMENT \<noteq> MAGIC_DESCRIPTOR" "MAGIC_CONNECTION \<noteq> MAGIC_STATEMENT"
  "MAGIC_CONNECTION \<noteq> MAGIC_DESCRIPTOR" "MAGIC_STATEMENT \<noteq> MAGIC_DESCRIPTOR"
  by (simp_all add: MAGIC_ENVIRONMENT_def MAGIC_CONNECTION_def MAGIC_STATEMENT_def
      MAGIC_DESCRIPTOR_def)

lemma SQLBindCol_invalid_handle:
  "Statement_cast h p = 0 \<Longrightarrow> SQLBindCol h p col ty val len ind = Some (SQL_INVALID_HANDLE, h)"
  by (simp add: SQLBindCol_def)

lemma Descriptor_cast_returns_only_null:
  assumes "Descriptor_cast h p = Some q"
  shows "p = 0"
proof (rule Descriptor_cast.raw_induct[where P = "\<lambda>h p q. p = 0", OF _ assms])
  fix cast :: "heap \<Rightarrow> addr \<Rightarrow> addr option" and h pointer r
  assume IH: "\<And>h' p' q'. cast h' p' = Some q' \<Longrightarrow> p' = 0"
    and body: "(if pointer = 0 then Some 0
                else Option.bind (cast h pointer)
                       (\<lambda>desc. if first_int (h desc) \<noteq> MAGIC_DESCRIPTOR then Some 0 else Some desc))
               = Some r"
  show "pointer = 0"
  proof (rule ccontr)
    assume ne: "pointer \<noteq> 0"
    with body obtain d where "cast h pointer = Some d"
      by (auto simp: bind_eq_Some_conv)
    with IH ne show False by blast
  qed
qed

lemma Descriptor_cast_diverges: "p \<noteq> 0 \<Longrightarrow> Descriptor_cast h p = None"
  using Descriptor_cast_returns_only_null[of h p] by (cases "Descriptor_cast h p") auto

lemma Descriptor_cast_null: "Descriptor_cast h 0 = Some 0"
  by (simp add: Descriptor_cast.simps)

text \<open>
  Claim C10. The claim is that the cast of each of the four handle types returns the
  handle when it is not null and carries the tag, and that anything else is rejected with
  the invalid-handle code. That holds of the environment, connection and statement
  casts. \<open>Descriptor::cast\<close> calls itself where the others cast the pointer: for a
  pointer that is not null it never returns, neither for the genuine descriptor at
  address 4096 nor for the statement at address 8192, and \<open>SQLGetDescField\<close> on either
  never returns \<open>SQL_INVALID_HANDLE\<close> or anything else.
\<close>

theorem Descriptor_cast_never_returns:
  "first_int (ex_heap 4096) = MAGIC_DESCRIPTOR
   \<and> Descriptor_cast ex_heap 4096 = None
   \<and> Descriptor_cast ex_heap 8192 = None
   \<and> SQLGetDescField ex_heap 4096 1 = None
   \<and> SQLGetDescField ex_heap 8192 1 = None"
  by (simp add: Descriptor_cast_diverges SQLGetDescField_def ex_heap_def new_Descriptor_def)

end
